theory Spec2Isabelle
  imports Complex_Main "HOL-Library.Word"
begin

section \<open>JavaScript strings\<close>

text \<open>
  A JavaScript string is a sequence of UTF-16 code units; \<open>s.length\<close> counts code
  units, and the regular expressions without the \<open>u\<close> flag match code units.
  \<open>js\<close> writes an ASCII literal.
\<close>

type_synonym jsstring = "16 word list"

definition js :: "string \<Rightarrow> jsstring" where
  "js s = map of_char s"

definition hyphen :: "16 word" where
  "hyphen = 0x2D"

definition dquote :: "16 word" where
  "dquote = 0x22"

text \<open>\<open>s.startsWith(p)\<close>.\<close>

definition startsWith :: "jsstring \<Rightarrow> jsstring \<Rightarrow> bool" where
  "startsWith s p \<longleftrightarrow> take (length p) s = p"

text \<open>\<open>parts.join(sep)\<close> of an array of strings.\<close>

fun join :: "jsstring \<Rightarrow> jsstring list \<Rightarrow> jsstring" where
  "join sep [] = []"
| "join sep [x] = x"
| "join sep (x # y # ys) = x @ sep @ join sep (y # ys)"

text \<open>\<open>String(n)\<close> of an integer-valued number: its decimal digits, with a minus sign.\<close>

function natToString :: "nat \<Rightarrow> jsstring" where
  "natToString n =
     (if n < 10 then [0x30 + of_nat n]
      else natToString (n div 10) @ [0x30 + of_nat (n mod 10)])"
  by pat_completeness auto
termination
  by (relation "measure id") auto

definition numberToString :: "int \<Rightarrow> jsstring" where
  "numberToString i = (if i < 0 then hyphen # natToString (nat (- i)) else natToString (nat i))"

section \<open>The slug of a title (services/geminiService.ts, slugify)\<close>

text \<open>
  \<open>slugify\<close> calls three operations of the JavaScript engine whose tables are the
  Unicode Character Database, which is no part of the repository: \<open>toLowerCase()\<close>,
  \<open>normalize('NFD')\<close> and the property \<open>\p{Diacritic}\<close> of a code point. They are
  parameters of the model. The two ASCII regular expressions that follow are modelled in
  full.
\<close>

record unicode =
  toLowerCase :: "jsstring \<Rightarrow> jsstring"
  normalizeNFD :: "jsstring \<Rightarrow> jsstring"
  Diacritic :: "nat \<Rightarrow> bool"

definition isLead :: "16 word \<Rightarrow> bool" where
  "isLead c \<longleftrightarrow> 0xD800 \<le> c \<and> c \<le> 0xDBFF"

definition isTrail :: "16 word \<Rightarrow> bool" where
  "isTrail c \<longleftrightarrow> 0xDC00 \<le> c \<and> c \<le> 0xDFFF"

definition codePoint :: "16 word \<Rightarrow> 16 word \<Rightarrow> nat" where
  "codePoint c1 c2 = 0x10000 + (unat c1 - 0xD800) * 0x400 + (unat c2 - 0xDC00)"

text \<open>
  \<open>.replace(/\p{Diacritic}/gu, '')\<close>: with the \<open>u\<close> flag the pattern matches code
  points, so a lead surrogate followed by a trail surrogate is read as one code point and
  any other code unit as a code point of its own.
\<close>

fun stripDiacritic :: "(nat \<Rightarrow> bool) \<Rightarrow> jsstring \<Rightarrow> jsstring" where
  "stripDiacritic D [] = []"
| "stripDiacritic D [c] = (if D (unat c) then [] else [c])"
| "stripDiacritic D (c1 # c2 # cs) =
     (if isLead c1 \<and> isTrail c2
      then (if D (codePoint c1 c2) then stripDiacritic D cs
            else c1 # c2 # stripDiacritic D cs)
      else (if D (unat c1) then stripDiacritic D (c2 # cs)
            else c1 # stripDiacritic D (c2 # cs)))"

text \<open>The character class \<open>[a-z0-9]\<close>.\<close>

definition is_az09 :: "16 word \<Rightarrow> bool" where
  "is_az09 c \<longleftrightarrow> (0x61 \<le> c \<and> c \<le> 0x7A) \<or> (0x30 \<le> c \<and> c \<le> 0x39)"

text \<open>
  \<open>.replace(/[^a-z0-9]+/g, '-')\<close>: scanning from the left, a code unit of the class is
  kept; at any other code unit the greedy \<open>+\<close> takes the whole run of such code units,
  one hyphen replaces it, and the scan goes on behind the run.
\<close>

function replaceRuns :: "jsstring \<Rightarrow> jsstring" where
  "replaceRuns [] = []"
| "replaceRuns (c # cs) =
     (if is_az09 c then c # replaceRuns cs
      else hyphen # replaceRuns (dropWhile (\<lambda>d. \<not> is_az09 d) cs))"
  by pat_completeness auto
termination
  by (relation "measure length") (auto simp: less_Suc_eq_le length_dropWhile_le)

text \<open>
  \<open>.replace(/(^-|-$)/g, '')\<close>: without the \<open>m\<close> flag \<open>^\<close> matches at index 0 only and
  \<open>$\<close> at the end only, so the matches are a hyphen at index 0 and a hyphen that is the
  last code unit: one hyphen at most goes at each end.
\<close>

definition trimHyphen :: "jsstring \<Rightarrow> jsstring" where
  "trimHyphen s =
     (let s1 = (case s of [] \<Rightarrow> [] | c # cs \<Rightarrow> if c = hyphen then cs else s)
      in if s1 \<noteq> [] \<and> last s1 = hyphen then butlast s1 else s1)"

text \<open>\<open>s || "ndgroup"\<close>: the empty string is the only falsy string.\<close>

definition slugify :: "unicode \<Rightarrow> jsstring \<Rightarrow> jsstring" where
  "slugify U s =
     trimHyphen (replaceRuns (stripDiacritic (Diacritic U)
       (normalizeNFD U (toLowerCase U (if s = [] then js ''ndgroup'' else s)))))"

section \<open>The CSV export (App, downloadCSV)\<close>

text \<open>\<open>v.replace(/"/g, '""')\<close>.\<close>

definition doubleQuotes :: "jsstring \<Rightarrow> jsstring" where
  "doubleQuotes v = concat (map (\<lambda>c. if c = dquote then [dquote, dquote] else [c]) v)"

definition processRow :: "jsstring list \<Rightarrow> jsstring" where
  "processRow row = join (js '','') (map (\<lambda>v. [dquote] @ doubleQuotes v @ [dquote]) row)"

definition csvContent :: "jsstring list list \<Rightarrow> jsstring" where
  "csvContent rows = [0xFEFF] @ join [0x0D, 0x0A] (map processRow rows)"

text \<open>
  \<open>new Blob([csvContent], ...)\<close> holds the UTF-8 encoding of the string. The encoder is
  the browser's; it is modelled here as the platform defines it: the string is read as
  scalar values (a surrogate pair is one, a lone surrogate becomes U+FFFD) and each is
  written in one to four bytes.
\<close>

definition isSurrogate :: "16 word \<Rightarrow> bool" where
  "isSurrogate c \<longleftrightarrow> 0xD800 \<le> c \<and> c \<le> 0xDFFF"

fun scalarValues :: "jsstring \<Rightarrow> nat list" where
  "scalarValues [] = []"
| "scalarValues [c] = [if isSurrogate c then 0xFFFD else unat c]"
| "scalarValues (c1 # c2 # cs) =
     (if isLead c1 \<and> isTrail c2 then codePoint c1 c2 # scalarValues cs
      else (if isSurrogate c1 then 0xFFFD else unat c1) # scalarValues (c2 # cs))"

definition utf8 :: "nat \<Rightarrow> 8 word list" where
  "utf8 n =
     (if n < 0x80 then [of_nat n]
      else if n < 0x800 then [of_nat (0xC0 + n div 0x40), of_nat (0x80 + n mod 0x40)]
      else if n < 0x10000 then
        [of_nat (0xE0 + n div 0x1000), of_nat (0x80 + n div 0x40 mod 0x40),
         of_nat (0x80 + n mod 0x40)]
      else
        [of_nat (0xF0 + n div 0x40000), of_nat (0x80 + n div 0x1000 mod 0x40),
         of_nat (0x80 + n div 0x40 mod 0x40), of_nat (0x80 + n mod 0x40)])"

definition blobBytes :: "jsstring \<Rightarrow> 8 word list" where
  "blobBytes s = concat (map utf8 (scalarValues s))"

record download =
  filename :: jsstring
  blobText :: jsstring

definition downloadCSV :: "jsstring \<Rightarrow> jsstring list list \<Rightarrow> download" where
  "downloadCSV name rows = \<lparr>filename = name, blobText = csvContent rows\<rparr>"

section \<open>The application state (App)\<close>

text \<open>
  The types of \<open>./types\<close> as the component and the service use them. An outline item
  as the service returns it has no index (\<open>Omit<OutlineItem, 'index'>\<close>); the
  component adds it. Numbers are integers here: the number fields of the form go through
  \<open>parseInt\<close> and \<open>clamp\<close>. A field name can stand in one record only, so the
  fields \<open>index\<close>, \<open>chapter\<close>, \<open>text\<close> and \<open>chars\<close> of a script block carry the
  prefix \<open>sb_\<close>, those of the SEO result the prefix \<open>seo_\<close>, and the four flags of
  \<open>LoadingStates\<close> the suffix \<open>Busy\<close>.
\<close>

record OutlineItemRaw =
  title :: jsstring
  focus :: jsstring
  actions :: "jsstring list"

record OutlineItem = OutlineItemRaw +
  index :: int

record ScriptBlock =
  sb_index :: int
  sb_chapter :: jsstring
  sb_text :: jsstring
  sb_chars :: int

record SEOResult =
  seo_titles :: "jsstring list"
  seo_hashtags :: "jsstring list"
  seo_keywords :: "jsstring list"
  seo_description :: jsstring

text \<open>\<open>LoadingStates\<close> and its keys (\<open>keyof LoadingStates\<close>).\<close>

datatype key = Outline | Seo | Script | Prompts

record LoadingStates =
  outlineBusy :: bool
  seoBusy :: bool
  scriptBusy :: bool
  promptsBusy :: bool

definition INITIAL_LOADING_STATES :: LoadingStates where
  "INITIAL_LOADING_STATES =
     \<lparr>outlineBusy = False, seoBusy = False, scriptBusy = False, promptsBusy = False\<rparr>"

fun busy :: "LoadingStates \<Rightarrow> key \<Rightarrow> bool" where
  "busy l Outline = outlineBusy l"
| "busy l Seo = seoBusy l"
| "busy l Script = scriptBusy l"
| "busy l Prompts = promptsBusy l"

text \<open>\<open>{ ...prev, [key]: b }\<close>.\<close>

fun withKey :: "key \<Rightarrow> bool \<Rightarrow> LoadingStates \<Rightarrow> LoadingStates" where
  "withKey Outline b l = l\<lparr>outlineBusy := b\<rparr>"
| "withKey Seo b l = l\<lparr>seoBusy := b\<rparr>"
| "withKey Script b l = l\<lparr>scriptBusy := b\<rparr>"
| "withKey Prompts b l = l\<lparr>promptsBusy := b\<rparr>"

fun keyName :: "key \<Rightarrow> jsstring" where
  "keyName Outline = js ''outline''"
| "keyName Seo = js ''seo''"
| "keyName Script = js ''script''"
| "keyName Prompts = js ''prompts''"

text \<open>
  The \<open>useState\<close> cells of the component that the handlers read or write (the cover
  image and the visibility of the key panel are display only and left out).
\<close>

record AppState =
  bookTitle :: jsstring
  frameRatio :: jsstring
  durationMin :: int
  chaptersCount :: int
  selectedModel :: jsstring
  apiKeyGemini :: jsstring
  apiKeyOpenAI :: jsstring
  outline :: "OutlineItem list"
  seo :: "SEOResult option"
  scriptBlocks :: "ScriptBlock list"
  videoPrompts :: "jsstring list"
  thumbTextIdeas :: "jsstring list"
  loading :: LoadingStates
  error :: "jsstring option"

definition initialState :: AppState where
  "initialState =
     \<lparr>bookTitle = [], frameRatio = js ''9:16'', durationMin = 240, chaptersCount = 12,
      selectedModel = js ''gemini-3-pro-preview'', apiKeyGemini = [], apiKeyOpenAI = [],
      outline = [], seo = None, scriptBlocks = [], videoPrompts = [], thumbTextIdeas = [],
      loading = INITIAL_LOADING_STATES, error = None\<rparr>"

text \<open>
  The repository holds two revisions of the component. The later one (\<open>WithKeys\<close>)
  adds the model selector and the two key fields, checks the OpenAI key in the gate and
  hands the selected model and the Gemini key to every service call; the earlier one
  (\<open>Plain\<close>) has neither. Everything else is the same text, so one model serves both.
\<close>

datatype revision = Plain | WithKeys

type_synonym override = "(jsstring \<times> jsstring) option"

definition overrideOf :: "revision \<Rightarrow> AppState \<Rightarrow> override" where
  "overrideOf rv s =
     (case rv of Plain \<Rightarrow> None | WithKeys \<Rightarrow> Some (selectedModel s, apiKeyGemini s))"

section \<open>The generation service\<close>

text \<open>
  A call of a service function builds a prompt from its arguments, sends it to the
  completion API and parses the answer; it resolves to a value or rejects (transport,
  service or parse failure) with a message. The prompt text and the API are outside the
  model: a call is recorded with its arguments, and its outcome is given by an oracle
  that sees the calls made so far, this one included. \<open>thumbsSettleFirst\<close> says which
  of two calls in flight settles first.

  \<open>calls\<close> is the record of the calls, each with the state of the component at the
  moment the call is made. State updates take effect in the order the handlers issue them.
  A handler runs alone: no other handler is interleaved with it.
\<close>

datatype request =
    GenerateOutline jsstring int int override
  | GenerateSEO jsstring int override
  | GenerateScriptBlock OutlineItem jsstring "int option" override
  | GenerateVideoPrompts jsstring jsstring override
  | GenerateThumbIdeas jsstring int override

record service =
  outlineAnswer :: "request list \<Rightarrow> jsstring + OutlineItemRaw list"
  seoAnswer :: "request list \<Rightarrow> jsstring + SEOResult"
  scriptBlockAnswer :: "request list \<Rightarrow> jsstring + jsstring"
  videoPromptsAnswer :: "request list \<Rightarrow> jsstring + jsstring list"
  thumbIdeasAnswer :: "request list \<Rightarrow> jsstring + jsstring list"
  thumbsSettleFirst :: "request list \<Rightarrow> bool"

record world =
  ui :: AppState
  calls :: "(request \<times> AppState) list"

definition history :: "world \<Rightarrow> request list" where
  "history w = map fst (calls w)"

text \<open>The calls made between two worlds, the second a later one of the first.\<close>

definition newCalls :: "world \<Rightarrow> world \<Rightarrow> (request \<times> AppState) list" where
  "newCalls w w' = drop (length (calls w)) (calls w')"

definition issue :: "request \<Rightarrow> world \<Rightarrow> world" where
  "issue rq w = w\<lparr>calls := calls w @ [(rq, ui w)]\<rparr>"

definition generateOutline ::
  "service \<Rightarrow> jsstring \<Rightarrow> int \<Rightarrow> int \<Rightarrow> override \<Rightarrow> world
     \<Rightarrow> (jsstring + OutlineItemRaw list) \<times> world" where
  "generateOutline svc t n d ov w =
     (let w' = issue (GenerateOutline t n d ov) w in (outlineAnswer svc (history w'), w'))"

definition generateSEO ::
  "service \<Rightarrow> jsstring \<Rightarrow> int \<Rightarrow> override \<Rightarrow> world \<Rightarrow> (jsstring + SEOResult) \<times> world" where
  "generateSEO svc t d ov w =
     (let w' = issue (GenerateSEO t d ov) w in (seoAnswer svc (history w'), w'))"

definition generateScriptBlock ::
  "service \<Rightarrow> OutlineItem \<Rightarrow> jsstring \<Rightarrow> int option \<Rightarrow> override \<Rightarrow> world
     \<Rightarrow> (jsstring + jsstring) \<times> world" where
  "generateScriptBlock svc item t target ov w =
     (let w' = issue (GenerateScriptBlock item t target ov) w
      in (scriptBlockAnswer svc (history w'), w'))"

definition generateVideoPrompts ::
  "service \<Rightarrow> jsstring \<Rightarrow> jsstring \<Rightarrow> override \<Rightarrow> world
     \<Rightarrow> (jsstring + jsstring list) \<times> world" where
  "generateVideoPrompts svc t ratio ov w =
     (let w' = issue (GenerateVideoPrompts t ratio ov) w
      in (videoPromptsAnswer svc (history w'), w'))"

definition generateThumbIdeas ::
  "service \<Rightarrow> jsstring \<Rightarrow> int \<Rightarrow> override \<Rightarrow> world \<Rightarrow> (jsstring + jsstring list) \<times> world" where
  "generateThumbIdeas svc t d ov w =
     (let w' = issue (GenerateThumbIdeas t d ov) w in (thumbIdeasAnswer svc (history w'), w'))"

section \<open>The handlers (App)\<close>

text \<open>The state setters of the component.\<close>

definition setError :: "jsstring option \<Rightarrow> world \<Rightarrow> world" where
  "setError e w = w\<lparr>ui := (ui w)\<lparr>error := e\<rparr>\<rparr>"

definition setLoading :: "key \<Rightarrow> bool \<Rightarrow> world \<Rightarrow> world" where
  "setLoading k b w = w\<lparr>ui := (ui w)\<lparr>loading := withKey k b (loading (ui w))\<rparr>\<rparr>"

definition setOutline :: "OutlineItem list \<Rightarrow> world \<Rightarrow> world" where
  "setOutline v w = w\<lparr>ui := (ui w)\<lparr>outline := v\<rparr>\<rparr>"

definition setSeo :: "SEOResult option \<Rightarrow> world \<Rightarrow> world" where
  "setSeo v w = w\<lparr>ui := (ui w)\<lparr>seo := v\<rparr>\<rparr>"

definition setScriptBlocks :: "ScriptBlock list \<Rightarrow> world \<Rightarrow> world" where
  "setScriptBlocks v w = w\<lparr>ui := (ui w)\<lparr>scriptBlocks := v\<rparr>\<rparr>"

text \<open>\<open>setScriptBlocks(prev => [...prev, newBlock])\<close>.\<close>

definition appendScriptBlock :: "ScriptBlock \<Rightarrow> world \<Rightarrow> world" where
  "appendScriptBlock b w = w\<lparr>ui := (ui w)\<lparr>scriptBlocks := scriptBlocks (ui w) @ [b]\<rparr>\<rparr>"

definition setVideoPrompts :: "jsstring list \<Rightarrow> world \<Rightarrow> world" where
  "setVideoPrompts v w = w\<lparr>ui := (ui w)\<lparr>videoPrompts := v\<rparr>\<rparr>"

definition setThumbTextIdeas :: "jsstring list \<Rightarrow> world \<Rightarrow> world" where
  "setThumbTextIdeas v w = w\<lparr>ui := (ui w)\<lparr>thumbTextIdeas := v\<rparr>\<rparr>"

text \<open>The three messages of \<open>withErrorHandling\<close>, as UTF-16 code units.\<close>

definition msgNoTitle :: jsstring where
  "msgNoTitle =
     [0x56, 0x75, 0x69, 0x20, 0x6C, 0xF2, 0x6E, 0x67, 0x20, 0x6E, 0x68, 0x1EAD, 0x70,
      0x20, 0x74, 0xEA, 0x6E, 0x20, 0x73, 0xE1, 0x63, 0x68, 0x20, 0x74, 0x72, 0x1B0,
      0x1EDB, 0x63, 0x2E]"

definition msgNoOpenAIKey :: jsstring where
  "msgNoOpenAIKey =
     [0x56, 0x75, 0x69, 0x20, 0x6C, 0xF2, 0x6E, 0x67, 0x20, 0x6E, 0x68, 0x1EAD, 0x70,
      0x20, 0x4F, 0x70, 0x65, 0x6E, 0x41, 0x49, 0x20, 0x41, 0x50, 0x49, 0x20, 0x4B,
      0x65, 0x79, 0x20, 0x111, 0x1EC3, 0x20, 0x73, 0x1EED, 0x20, 0x64, 0x1EE5, 0x6E,
      0x67, 0x20, 0x63, 0xE1, 0x63, 0x20, 0x6D, 0x6F, 0x64, 0x65, 0x6C, 0x20, 0x43,
      0x68, 0x61, 0x74, 0x47, 0x50, 0x54, 0x2E]"

definition errorMessage :: "key \<Rightarrow> jsstring \<Rightarrow> jsstring" where
  "errorMessage k e =
     [0x110, 0xE3, 0x20, 0x78, 0x1EA3, 0x79, 0x20, 0x72, 0x61, 0x20, 0x6C, 0x1ED7,
      0x69, 0x20, 0x6B, 0x68, 0x69, 0x20, 0x74, 0x1EA1, 0x6F, 0x20]
     @ keyName k @
     [0x2E, 0x20, 0x56, 0x75, 0x69, 0x20, 0x6C, 0xF2, 0x6E, 0x67, 0x20, 0x74, 0x68,
      0x1EED, 0x20, 0x6C, 0x1EA1, 0x69, 0x2E, 0x20, 0x4C, 0x1ED7, 0x69, 0x3A, 0x20]
     @ e"

text \<open>
  The precondition of \<open>withErrorHandling\<close>: its two early returns, each with the
  message it sets. The check of the OpenAI key is in the later revision only.
\<close>

definition gate :: "revision \<Rightarrow> AppState \<Rightarrow> jsstring option" where
  "gate rv s =
     (if bookTitle s = [] then Some msgNoTitle
      else if rv = WithKeys \<and> startsWith (selectedModel s) (js ''gpt'') \<and> apiKeyOpenAI s = []
      then Some msgNoOpenAIKey
      else None)"

text \<open>
  \<open>withErrorHandling(fn, key)\<close>. \<open>fn\<close> is the body of the handler: it ends normally
  (\<open>None\<close>) or throws, a rejected \<open>await\<close> included (\<open>Some e\<close>, \<open>e\<close> the message of
  what was thrown). The \<open>catch\<close> sets the error message, the \<open>finally\<close> clears the
  busy flag on both paths.
\<close>

definition withErrorHandling ::
  "revision \<Rightarrow> (world \<Rightarrow> jsstring option \<times> world) \<Rightarrow> key \<Rightarrow> world \<Rightarrow> world" where
  "withErrorHandling rv fn k w =
     (case gate rv (ui w) of
        Some m \<Rightarrow> setError (Some m) w
      | None \<Rightarrow>
          (case fn (setLoading k True (setError None w)) of
             (None, w') \<Rightarrow> setLoading k False w'
           | (Some e, w') \<Rightarrow> setLoading k False (setError (Some (errorMessage k e)) w')))"

text \<open>\<open>result.map((item, index) => ({ ...item, index }))\<close>.\<close>

definition withIndex :: "OutlineItemRaw list \<Rightarrow> OutlineItem list" where
  "withIndex result =
     map (\<lambda>(i, item). \<lparr>title = title item, focus = focus item, actions = actions item,
                        index = int i\<rparr>)
       (enumerate 0 result)"

definition outlineBody :: "revision \<Rightarrow> service \<Rightarrow> world \<Rightarrow> jsstring option \<times> world" where
  "outlineBody rv svc w =
     (case generateOutline svc (bookTitle (ui w)) (chaptersCount (ui w)) (durationMin (ui w))
             (overrideOf rv (ui w)) w of
        (Inl e, w1) \<Rightarrow> (Some e, w1)
      | (Inr result, w1) \<Rightarrow> (None, setOutline (withIndex result) w1))"

definition handleGenerateOutline :: "revision \<Rightarrow> service \<Rightarrow> world \<Rightarrow> world" where
  "handleGenerateOutline rv svc = withErrorHandling rv (outlineBody rv svc) Outline"

definition seoBody :: "revision \<Rightarrow> service \<Rightarrow> world \<Rightarrow> jsstring option \<times> world" where
  "seoBody rv svc w =
     (case generateSEO svc (bookTitle (ui w)) (durationMin (ui w)) (overrideOf rv (ui w)) w of
        (Inl e, w1) \<Rightarrow> (Some e, w1)
      | (Inr result, w1) \<Rightarrow> (None, setSeo (Some result) w1))"

definition handleGenerateSEO :: "revision \<Rightarrow> service \<Rightarrow> world \<Rightarrow> world" where
  "handleGenerateSEO rv svc = withErrorHandling rv (seoBody rv svc) Seo"

text \<open>
  \<open>Promise.all\<close> of two promises that are both in flight: it resolves to both values
  when both resolve, and rejects with the reason of the promise that rejects first.
\<close>

fun promiseAll2 :: "bool \<Rightarrow> jsstring + 'a \<Rightarrow> jsstring + 'b \<Rightarrow> jsstring + 'a \<times> 'b" where
  "promiseAll2 secondFirst (Inr a) (Inr b) = Inr (a, b)"
| "promiseAll2 secondFirst (Inl e) (Inr b) = Inl e"
| "promiseAll2 secondFirst (Inr a) (Inl e) = Inl e"
| "promiseAll2 secondFirst (Inl e1) (Inl e2) = Inl (if secondFirst then e2 else e1)"

text \<open>
  The two calls are the elements of the array literal: both are made, in this order,
  before \<open>Promise.all\<close> is applied and before anything is awaited.
\<close>

definition promptsBody :: "revision \<Rightarrow> service \<Rightarrow> world \<Rightarrow> jsstring option \<times> world" where
  "promptsBody rv svc w =
     (case generateVideoPrompts svc (bookTitle (ui w)) (frameRatio (ui w))
             (overrideOf rv (ui w)) w of
        (r1, w1) \<Rightarrow>
          (case generateThumbIdeas svc (bookTitle (ui w)) (durationMin (ui w))
                  (overrideOf rv (ui w)) w1 of
             (r2, w2) \<Rightarrow>
               (case promiseAll2 (thumbsSettleFirst svc (history w2)) r1 r2 of
                  Inl e \<Rightarrow> (Some e, w2)
                | Inr (prompts, thumbs) \<Rightarrow>
                    (None, setThumbTextIdeas thumbs (setVideoPrompts prompts w2)))))"

definition handleGeneratePrompts :: "revision \<Rightarrow> service \<Rightarrow> world \<Rightarrow> world" where
  "handleGeneratePrompts rv svc = withErrorHandling rv (promptsBody rv svc) Prompts"

definition totalCharsTarget :: "AppState \<Rightarrow> int" where
  "totalCharsTarget s = durationMin s * 1000"

text \<open>
  \<open>Math.round(totalCharsTarget / totalWeight)\<close>: the quotient rounded to the nearest
  integer, a half towards plus infinity. With no outline item the quotient is no finite
  number (\<open>None\<close>); the loop then makes no request.
\<close>

definition charsPerBlock :: "int \<Rightarrow> nat \<Rightarrow> int option" where
  "charsPerBlock target totalWeight =
     (if totalWeight = 0 then None
      else Some (round (rat_of_int target / rat_of_nat totalWeight)))"

text \<open>The block built from an outline item and the text returned for it.\<close>

definition newBlock :: "OutlineItem \<Rightarrow> jsstring \<Rightarrow> ScriptBlock" where
  "newBlock item txt =
     \<lparr>sb_index = index item + 1, sb_chapter = title item, sb_text = txt,
      sb_chars = int (length txt)\<rparr>"

text \<open>
  The \<open>for ... of\<close> loop: the request for an item is awaited and its block appended
  before the next item is taken; a rejected request ends the loop and the body.
\<close>

fun scriptLoop ::
  "service \<Rightarrow> jsstring \<Rightarrow> int option \<Rightarrow> override \<Rightarrow> OutlineItem list \<Rightarrow> world
     \<Rightarrow> jsstring option \<times> world" where
  "scriptLoop svc t target ov [] w = (None, w)"
| "scriptLoop svc t target ov (item # items) w =
     (case generateScriptBlock svc item t target ov w of
        (Inl e, w1) \<Rightarrow> (Some e, w1)
      | (Inr txt, w1) \<Rightarrow>
          scriptLoop svc t target ov items (appendScriptBlock (newBlock item txt) w1))"

text \<open>
  The first part of the body of \<open>handleGenerateScript\<close>: the outline to work on, after
  \<open>setScriptBlocks([])\<close>. \<open>outline\<close> is the value the handler closed over, the stored
  outline at the moment of the click.
\<close>

definition currentOutline ::
  "revision \<Rightarrow> service \<Rightarrow> world \<Rightarrow> (jsstring + OutlineItem list) \<times> world" where
  "currentOutline rv svc w =
     (if outline (ui w) = [] then
        (case generateOutline svc (bookTitle (ui w)) (chaptersCount (ui w))
                (durationMin (ui w)) (overrideOf rv (ui w)) (setScriptBlocks [] w) of
           (Inl e, w1) \<Rightarrow> (Inl e, w1)
         | (Inr generated, w1) \<Rightarrow>
             (Inr (withIndex generated), setOutline (withIndex generated) w1))
      else (Inr (outline (ui w)), setScriptBlocks [] w))"

definition scriptBody :: "revision \<Rightarrow> service \<Rightarrow> world \<Rightarrow> jsstring option \<times> world" where
  "scriptBody rv svc w =
     (case currentOutline rv svc w of
        (Inl e, w1) \<Rightarrow> (Some e, w1)
      | (Inr cur, w1) \<Rightarrow>
          scriptLoop svc (bookTitle (ui w))
            (charsPerBlock (totalCharsTarget (ui w)) (length cur))
            (overrideOf rv (ui w)) cur w1)"

definition handleGenerateScript :: "revision \<Rightarrow> service \<Rightarrow> world \<Rightarrow> world" where
  "handleGenerateScript rv svc = withErrorHandling rv (scriptBody rv svc) Script"

text \<open>The two exports; each does nothing when its list is empty.\<close>

definition exportScriptCSV :: "unicode \<Rightarrow> AppState \<Rightarrow> download option" where
  "exportScriptCSV U s =
     (if scriptBlocks s = [] then None
      else Some (downloadCSV (js ''kichban_'' @ slugify U (bookTitle s) @ js ''.csv'')
        ([js ''STT'',
          [0x43, 0x68, 0x1B0, 0x1A1, 0x6E, 0x67],
          [0x4B, 0x1ECB, 0x63, 0x68, 0x20, 0x62, 0x1EA3, 0x6E]]
         # map (\<lambda>b. [numberToString (sb_index b), sb_chapter b, sb_text b])
             (scriptBlocks s))))"

definition exportPromptCSV :: "unicode \<Rightarrow> AppState \<Rightarrow> download option" where
  "exportPromptCSV U s =
     (if videoPrompts s = [] then None
      else Some (downloadCSV (js ''prompts_'' @ slugify U (bookTitle s) @ js ''.csv'')
        ([js ''STT'', js ''Prompt'']
         # map (\<lambda>(i, p). [numberToString (int i + 1), p]) (enumerate 0 (videoPrompts s)))))"

section \<open>Runs of the component\<close>

text \<open>The handler behind each of the four buttons, by the key of its busy flag.\<close>

fun handler :: "key \<Rightarrow> revision \<Rightarrow> service \<Rightarrow> world \<Rightarrow> world" where
  "handler Outline = handleGenerateOutline"
| "handler Seo = handleGenerateSEO"
| "handler Script = handleGenerateScript"
| "handler Prompts = handleGeneratePrompts"

text \<open>
  What a user can do: edit a field of the form (the two number fields go through
  \<open>clamp\<close>) or click one of the four buttons, the service answering as some oracle.
\<close>

definition clamp :: "int \<Rightarrow> int \<Rightarrow> int \<Rightarrow> int" where
  "clamp n lo hi = max lo (min hi n)"

datatype action =
    SetBookTitle jsstring
  | SetFrameRatio jsstring
  | SetDurationMin int
  | SetChaptersCount int
  | SetSelectedModel jsstring
  | SetApiKeyGemini jsstring
  | SetApiKeyOpenAI jsstring
  | Click key service

fun act :: "revision \<Rightarrow> action \<Rightarrow> world \<Rightarrow> world" where
  "act rv (SetBookTitle v) w = w\<lparr>ui := (ui w)\<lparr>bookTitle := v\<rparr>\<rparr>"
| "act rv (SetFrameRatio v) w = w\<lparr>ui := (ui w)\<lparr>frameRatio := v\<rparr>\<rparr>"
| "act rv (SetDurationMin n) w = w\<lparr>ui := (ui w)\<lparr>durationMin := clamp n 5 240\<rparr>\<rparr>"
| "act rv (SetChaptersCount n) w = w\<lparr>ui := (ui w)\<lparr>chaptersCount := clamp n 6 24\<rparr>\<rparr>"
| "act rv (SetSelectedModel v) w = w\<lparr>ui := (ui w)\<lparr>selectedModel := v\<rparr>\<rparr>"
| "act rv (SetApiKeyGemini v) w = w\<lparr>ui := (ui w)\<lparr>apiKeyGemini := v\<rparr>\<rparr>"
| "act rv (SetApiKeyOpenAI v) w = w\<lparr>ui := (ui w)\<lparr>apiKeyOpenAI := v\<rparr>\<rparr>"
| "act rv (Click k svc) w = handler k rv svc w"

definition initialWorld :: world where
  "initialWorld = \<lparr>ui = initialState, calls = []\<rparr>"

fun run :: "revision \<Rightarrow> action list \<Rightarrow> world \<Rightarrow> world" where
  "run rv [] w = w"
| "run rv (a # as) w = run rv as (act rv a w)"

text \<open>
  The calls of a run of the loop over \<open>items\<close> that starts in state \<open>s\<close>, makes
  \<open>m\<close> requests and gets the texts \<open>txts\<close> back: request \<open>i\<close> is for item \<open>i\<close> and is
  made in the state that holds the blocks of the \<open>i\<close> items before it.
\<close>

definition loopTrace ::
  "jsstring \<Rightarrow> int option \<Rightarrow> override \<Rightarrow> OutlineItem list \<Rightarrow> AppState \<Rightarrow> jsstring list \<Rightarrow> nat
     \<Rightarrow> (request \<times> AppState) list" where
  "loopTrace t tg ov items s txts m =
     map (\<lambda>i. (GenerateScriptBlock (items ! i) t tg ov,
               s\<lparr>scriptBlocks := scriptBlocks s @ map2 newBlock items (take i txts)\<rparr>))
       [0..<m]"

definition loopRun ::
  "service \<Rightarrow> jsstring \<Rightarrow> int option \<Rightarrow> override \<Rightarrow> OutlineItem list \<Rightarrow> world \<Rightarrow> jsstring list
     \<Rightarrow> bool" where
  "loopRun svc t tg ov items w txts \<longleftrightarrow>
     length txts \<le> length items \<and>
     ui (snd (scriptLoop svc t tg ov items w)) =
       (ui w)\<lparr>scriptBlocks := scriptBlocks (ui w) @ map2 newBlock items txts\<rparr> \<and>
     (fst (scriptLoop svc t tg ov items w) = None \<longleftrightarrow> length txts = length items) \<and>
     newCalls w (snd (scriptLoop svc t tg ov items w)) =
       loopTrace t tg ov items (ui w) txts
         (if fst (scriptLoop svc t tg ov items w) = None then length txts
          else Suc (length txts)) \<and>
     (\<forall>i<length txts.
        scriptBlockAnswer svc
          (history w @ map fst (loopTrace t tg ov items (ui w) txts (Suc i))) = Inr (txts ! i)) \<and>
     (\<forall>e. fst (scriptLoop svc t tg ov items w) = Some e \<longrightarrow>
        scriptBlockAnswer svc
          (history w @ map fst (loopTrace t tg ov items (ui w) txts (Suc (length txts)))) = Inl e)"

text \<open>The state in which the body of a handler starts, once the gate has let it pass.\<close>

definition entered :: "key \<Rightarrow> AppState \<Rightarrow> AppState" where
  "entered k s = s\<lparr>error := None, loading := withKey k True (loading s)\<rparr>"

text \<open>The request for an outline, as \<open>handleGenerateOutline\<close> and \<open>handleGenerateScript\<close> make it.\<close>

definition outlineRequest :: "revision \<Rightarrow> AppState \<Rightarrow> request" where
  "outlineRequest rv s =
     GenerateOutline (bookTitle s) (chaptersCount s) (durationMin s) (overrideOf rv s)"

text \<open>The two requests of \<open>handleGeneratePrompts\<close> and the request of \<open>handleGenerateSEO\<close>.\<close>

definition videoPromptsRequest :: "revision \<Rightarrow> AppState \<Rightarrow> request" where
  "videoPromptsRequest rv s = GenerateVideoPrompts (bookTitle s) (frameRatio s) (overrideOf rv s)"

definition thumbIdeasRequest :: "revision \<Rightarrow> AppState \<Rightarrow> request" where
  "thumbIdeasRequest rv s = GenerateThumbIdeas (bookTitle s) (durationMin s) (overrideOf rv s)"

definition seoRequest :: "revision \<Rightarrow> AppState \<Rightarrow> request" where
  "seoRequest rv s = GenerateSEO (bookTitle s) (durationMin s) (overrideOf rv s)"

text \<open>The count of a block is the length of its text.\<close>

definition charsExact :: "ScriptBlock \<Rightarrow> bool" where
  "charsExact b \<longleftrightarrow> sb_chars b = int (length (sb_text b))"

definition blocksExact :: "world \<Rightarrow> bool" where
  "blocksExact w \<longleftrightarrow>
     (\<forall>b\<in>set (scriptBlocks (ui w)). charsExact b) \<and>
     (\<forall>(rq, s)\<in>set (calls w). \<forall>b\<in>set (scriptBlocks s). charsExact b)"

text \<open>
  A run of \<open>handleGenerateScript\<close> that works on \<open>items\<close>, enters its loop in state
  \<open>s\<close> after the calls \<open>pre\<close> and gets the texts \<open>txts\<close> back, each the answer to
  the request for its item: the calls of the run, and the state it ends in. The error is
  clear exactly when every item got its text; otherwise the request for the next item was
  rejected, and the error is the message built from its reason.
\<close>

definition scriptRun ::
  "revision \<Rightarrow> service \<Rightarrow> world \<Rightarrow> OutlineItem list \<Rightarrow> AppState \<Rightarrow> (request \<times> AppState) list
     \<Rightarrow> jsstring list \<Rightarrow> bool" where
  "scriptRun rv svc w items s pre txts \<longleftrightarrow>
     length txts \<le> length items \<and>
     newCalls w (handleGenerateScript rv svc w) =
       pre @ loopTrace (bookTitle s) (charsPerBlock (totalCharsTarget s) (length items))
               (overrideOf rv s) items s txts
               (if length txts = length items then length txts else Suc (length txts)) \<and>
     (\<exists>err. (err = None \<longleftrightarrow> length txts = length items) \<and>
        ui (handleGenerateScript rv svc w) =
          s\<lparr>scriptBlocks := map2 newBlock items txts,
            loading := withKey Script False (loading s), error := err\<rparr>) \<and>
     (\<forall>i<length txts.
        scriptBlockAnswer svc
          (history w @ map fst pre @
           map fst (loopTrace (bookTitle s) (charsPerBlock (totalCharsTarget s) (length items))
                      (overrideOf rv s) items s txts (Suc i))) = Inr (txts ! i)) \<and>
     (length txts < length items \<longrightarrow>
        (\<exists>e. scriptBlockAnswer svc
               (history w @ map fst pre @
                map fst (loopTrace (bookTitle s)
                           (charsPerBlock (totalCharsTarget s) (length items))
                           (overrideOf rv s) items s txts (Suc (length txts)))) = Inl e \<and>
             error (ui (handleGenerateScript rv svc w)) = Some (errorMessage Script e)))"

text \<open>
  The gate as the specification words it: the selected model belongs to a provider whose
  credential field is empty. The provider of a model is the group of the model selector
  that lists it, and each provider has its key field.
\<close>

datatype provider = Gemini | OpenAI

definition providerOf :: "jsstring \<Rightarrow> provider option" where
  "providerOf m =
     (if m \<in> set [js ''gemini-3-pro-preview'', js ''gemini-3-flash-preview''] then Some Gemini
      else if m \<in> set [js ''gpt-5.2-auto'', js ''gpt-5.2-instant'', js ''gpt-5.2-thinking'',
                        js ''gpt-5.2-pro''] then Some OpenAI
      else None)"

fun credentialField :: "AppState \<Rightarrow> provider \<Rightarrow> jsstring" where
  "credentialField s Gemini = apiKeyGemini s"
| "credentialField s OpenAI = apiKeyOpenAI s"

definition credentialMissing :: "AppState \<Rightarrow> bool" where
  "credentialMissing s =
     (case providerOf (selectedModel s) of None \<Rightarrow> False
      | Some p \<Rightarrow> credentialField s p = [])"

section \<open>The slug and the CSV text, as the specification words them\<close>

text \<open>
  A string without its diacritics: the string read as code points, each with the code
  units that encode it (a lead surrogate followed by a trail surrogate is one code point,
  any other code unit is one of its own), and the code units of those code points that
  have not the property.
\<close>

fun codePoints :: "jsstring \<Rightarrow> (jsstring \<times> nat) list" where
  "codePoints [] = []"
| "codePoints [c] = [([c], unat c)]"
| "codePoints (c1 # c2 # cs) =
     (if isLead c1 \<and> isTrail c2 then ([c1, c2], codePoint c1 c2) # codePoints cs
      else ([c1], unat c1) # codePoints (c2 # cs))"

definition withoutDiacritics :: "(nat \<Rightarrow> bool) \<Rightarrow> jsstring \<Rightarrow> jsstring" where
  "withoutDiacritics D s = concat (map fst (filter (\<lambda>p. \<not> D (snd p)) (codePoints s)))"

text \<open>
  The words of a string: its maximal runs of code units of the class \<open>[a-z0-9]\<close>.
\<close>

function alnumWords :: "jsstring \<Rightarrow> jsstring list" where
  "alnumWords [] = []"
| "alnumWords (c # cs) =
     (if is_az09 c then (c # takeWhile is_az09 cs) # alnumWords (dropWhile is_az09 cs)
      else alnumWords cs)"
  by pat_completeness auto
termination
  by (relation "measure length") (auto simp: less_Suc_eq_le length_dropWhile_le)

text \<open>
  Whether a string begins with a run of other code units, and whether it has a word and
  ends with such a run: the hyphens \<open>replaceRuns\<close> puts before the first word and behind
  the last.
\<close>

definition lead :: "jsstring \<Rightarrow> jsstring" where
  "lead t = (case t of [] \<Rightarrow> [] | c # cs \<Rightarrow> if is_az09 c then [] else [hyphen])"

definition trail :: "jsstring \<Rightarrow> jsstring" where
  "trail t = (if alnumWords t \<noteq> [] \<and> \<not> is_az09 (last t) then [hyphen] else [])"

text \<open>No two hyphens in a row.\<close>

fun noDoubleHyphen :: "jsstring \<Rightarrow> bool" where
  "noDoubleHyphen (c # d # cs) \<longleftrightarrow> \<not> (c = hyphen \<and> d = hyphen) \<and> noDoubleHyphen (d # cs)"
| "noDoubleHyphen cs \<longleftrightarrow> True"

text \<open>
  The title of the specification's example (precomposed, as the specification has it),
  its lower case and the canonical decomposition of that, as UTF-16 code units, and what
  the Unicode Character Database says about the strings of the two examples: how they are
  lower-cased and decomposed, that the two combining marks U+0300 and U+0309 are
  diacritics, and that the letters \<open>a-z\<close> and the space are not.
\<close>

definition nhaGiaKim :: jsstring where
  "nhaGiaKim = [0x4E, 0x68, 0xE0, 0x20, 0x47, 0x69, 0x1EA3, 0x20, 0x4B, 0x69, 0x6D]"

definition nhaGiaKimLower :: jsstring where
  "nhaGiaKimLower = [0x6E, 0x68, 0xE0, 0x20, 0x67, 0x69, 0x1EA3, 0x20, 0x6B, 0x69, 0x6D]"

definition nhaGiaKimNFD :: jsstring where
  "nhaGiaKimNFD =
     [0x6E, 0x68, 0x61, 0x300, 0x20, 0x67, 0x69, 0x61, 0x309, 0x20, 0x6B, 0x69, 0x6D]"

definition unicodeOfExamples :: "unicode \<Rightarrow> bool" where
  "unicodeOfExamples U \<longleftrightarrow>
     toLowerCase U nhaGiaKim = nhaGiaKimLower \<and>
     normalizeNFD U nhaGiaKimLower = nhaGiaKimNFD \<and>
     toLowerCase U (js ''ndgroup'') = js ''ndgroup'' \<and>
     normalizeNFD U (js ''ndgroup'') = js ''ndgroup'' \<and>
     Diacritic U 0x300 \<and> Diacritic U 0x309 \<and>
     (\<forall>c\<in>set (js ''abcdefghijklmnopqrstuvwxyz ''). \<not> Diacritic U (unat c))"

text \<open>
  The CSV text in the specification's words: a field in double quotes with its double
  quotes doubled, and a list of texts with a separator between neighbours.
\<close>

fun doubled :: "jsstring \<Rightarrow> jsstring" where
  "doubled [] = []"
| "doubled (c # cs) = (if c = dquote then dquote # dquote # doubled cs else c # doubled cs)"

definition quoted :: "jsstring \<Rightarrow> jsstring" where
  "quoted v = dquote # doubled v @ [dquote]"

fun separated :: "jsstring \<Rightarrow> jsstring list \<Rightarrow> jsstring" where
  "separated sep [] = []"
| "separated sep (x # xs) = x @ concat (map (\<lambda>y. sep @ y) xs)"

section \<open>Sample inputs\<close>

definition sampleOutline :: "OutlineItemRaw list" where
  "sampleOutline =
     [\<lparr>title = js ''Hook'', focus = js ''Why'', actions = [js ''a'', js ''b'']\<rparr>,
      \<lparr>title = js ''Intro'', focus = js ''Who'', actions = [js ''c'']\<rparr>]"

definition sampleSEO :: SEOResult where
  "sampleSEO =
     \<lparr>seo_titles = [js ''T1''], seo_hashtags = [js ''#h''], seo_keywords = [js ''k''],
      seo_description = js ''d''\<rparr>"

text \<open>
  An engine to evaluate the examples on: its three operations are right on Basic Latin
  and on the two accented letters of the example, and it is used for nothing else.
\<close>

definition sampleUnicode :: unicode where
  "sampleUnicode =
     \<lparr>toLowerCase = map (\<lambda>c. if 0x41 \<le> c \<and> c \<le> 0x5A then c + 0x20 else c),
      normalizeNFD = (\<lambda>s. concat (map (\<lambda>c. if c = 0xE0 then [0x61, 0x300]
                                            else if c = 0x1EA3 then [0x61, 0x309] else [c]) s)),
      Diacritic = (\<lambda>n. n = 0x5E \<or> n = 0x60 \<or> (0x300 \<le> n \<and> n \<le> 0x34E))\<rparr>"

text \<open>A service that answers every call.\<close>

definition okService :: service where
  "okService =
     \<lparr>outlineAnswer = (\<lambda>h. Inr sampleOutline),
      seoAnswer = (\<lambda>h. Inr sampleSEO),
      scriptBlockAnswer = (\<lambda>h. Inr (js ''Once'')),
      videoPromptsAnswer = (\<lambda>h. Inr [js ''p1'', js ''p2'']),
      thumbIdeasAnswer = (\<lambda>h. Inr [js ''t1'']),
      thumbsSettleFirst = (\<lambda>h. False)\<rparr>"

text \<open>A user who types a title and asks for the script.\<close>

definition scriptSession :: "action list" where
  "scriptSession = [SetBookTitle (js ''Dune''), Click Script okService]"

text \<open>
  Services that reject one kind of call with the message \<open>503\<close> and answer the others.
\<close>

definition thumbsDown :: service where
  "thumbsDown = okService\<lparr>thumbIdeasAnswer := (\<lambda>h. Inl (js ''503''))\<rparr>"

text \<open>A service that answers the request for the first outline item only.\<close>

definition laterBlocksDown :: service where
  "laterBlocksDown =
     okService\<lparr>scriptBlockAnswer :=
       (\<lambda>h. case last h of
              GenerateScriptBlock item t tg ov \<Rightarrow>
                if index item = 0 then Inr (js ''Once'') else Inl (js ''503'')
            | _ \<Rightarrow> Inl (js ''503''))\<rparr>"

definition blocksDown :: service where
  "blocksDown = okService\<lparr>scriptBlockAnswer := (\<lambda>h. Inl (js ''503''))\<rparr>"

text \<open>The initial world with a title typed in.\<close>

definition readyWorld :: world where
  "readyWorld = \<lparr>ui = initialState\<lparr>bookTitle := js ''Dune''\<rparr>, calls = []\<rparr>"

text \<open>The same with a ChatGPT model selected and no OpenAI key.\<close>

definition gptWorld :: world where
  "gptWorld = \<lparr>ui = initialState\<lparr>bookTitle := js ''Dune'', selectedModel := js ''gpt-5.2-pro''\<rparr>,
                calls = []\<rparr>"

text \<open>The worlds after a first generation of the prompts and of the script.\<close>

definition promptedWorld :: world where
  "promptedWorld = handleGeneratePrompts WithKeys okService readyWorld"

definition scriptedWorld :: world where
  "scriptedWorld = handleGenerateScript WithKeys okService readyWorld"

section \<open>Lemmas\<close>

lemma ui_simps [simp]:
  "ui (setError e w) = (ui w)\<lparr>error := e\<rparr>"
  "ui (setLoading k v w) = (ui w)\<lparr>loading := withKey k v (loading (ui w))\<rparr>"
  "ui (setOutline ol w) = (ui w)\<lparr>outline := ol\<rparr>"
  "ui (setSeo se w) = (ui w)\<lparr>seo := se\<rparr>"
  "ui (setScriptBlocks bs w) = (ui w)\<lparr>scriptBlocks := bs\<rparr>"
  "ui (appendScriptBlock b w) = (ui w)\<lparr>scriptBlocks := scriptBlocks (ui w) @ [b]\<rparr>"
  "ui (setVideoPrompts ps w) = (ui w)\<lparr>videoPrompts := ps\<rparr>"
  "ui (setThumbTextIdeas ts w) = (ui w)\<lparr>thumbTextIdeas := ts\<rparr>"
  "ui (issue rq w) = ui w"
  by (simp_all add: setError_def setLoading_def setOutline_def setSeo_def setScriptBlocks_def
      appendScriptBlock_def setVideoPrompts_def setThumbTextIdeas_def issue_def)

lemma calls_simps [simp]:
  "calls (setError e w) = calls w"
  "calls (setLoading k v w) = calls w"
  "calls (setOutline ol w) = calls w"
  "calls (setSeo se w) = calls w"
  "calls (setScriptBlocks bs w) = calls w"
  "calls (appendScriptBlock b w) = calls w"
  "calls (setVideoPrompts ps w) = calls w"
  "calls (setThumbTextIdeas ts w) = calls w"
  "calls (issue rq w) = calls w @ [(rq, ui w)]"
  by (simp_all add: setError_def setLoading_def setOutline_def setSeo_def setScriptBlocks_def
      appendScriptBlock_def setVideoPrompts_def setThumbTextIdeas_def issue_def)

lemma history_simps [simp]:
  "history (setError e w) = history w"
  "history (setLoading k v w) = history w"
  "history (setOutline ol w) = history w"
  "history (setSeo se w) = history w"
  "history (setScriptBlocks bs w) = history w"
  "history (appendScriptBlock b w) = history w"
  "history (setVideoPrompts ps w) = history w"
  "history (setThumbTextIdeas ts w) = history w"
  "history (issue rq w) = history w @ [rq]"
  by (simp_all add: history_def)

lemma newCalls_append: "calls w' = calls w @ cs \<Longrightarrow> newCalls w w' = cs"
  by (simp add: newCalls_def)

subsection \<open>The index given to the outline items\<close>

lemma length_withIndex [simp]: "length (withIndex result) = length result"
  by (simp add: withIndex_def)

lemma nth_withIndex:
  "i < length result \<Longrightarrow>
   withIndex result ! i =
     \<lparr>title = title (result ! i), focus = focus (result ! i), actions = actions (result ! i),
      index = int i\<rparr>"
  by (simp add: withIndex_def nth_enumerate_eq)

lemma map_index_withIndex: "map index (withIndex result) = map int [0..<length result]"
  by (rule nth_equalityI) (simp_all add: nth_withIndex)

lemma map_title_withIndex: "map title (withIndex result) = map title result"
  by (rule nth_equalityI) (simp_all add: nth_withIndex)

lemma map_focus_withIndex: "map focus (withIndex result) = map focus result"
  by (rule nth_equalityI) (simp_all add: nth_withIndex)

lemma map_actions_withIndex: "map actions (withIndex result) = map actions result"
  by (rule nth_equalityI) (simp_all add: nth_withIndex)

lemma ready_gate: "gate rv (ui readyWorld) = None"
  by (simp add: gate_def readyWorld_def initialState_def js_def startsWith_def)

subsection \<open>The loop over the outline items\<close>

lemma scriptLoop_calls:
  "calls (snd (scriptLoop svc t tg ov items w)) =
     calls w @ newCalls w (snd (scriptLoop svc t tg ov items w))"
proof (induction items arbitrary: w)
  case Nil
  show ?case by (simp add: newCalls_def)
next
  case (Cons item items)
  show ?case
  proof (cases "scriptBlockAnswer svc (history w @ [GenerateScriptBlock item t tg ov])")
    case (Inl e)
    then show ?thesis
      by (simp add: generateScriptBlock_def Let_def newCalls_def)
  next
    case (Inr tx)
    let ?w2 = "appendScriptBlock (newBlock item tx) (issue (GenerateScriptBlock item t tg ov) w)"
    have "calls (snd (scriptLoop svc t tg ov items ?w2)) =
        calls ?w2 @ newCalls ?w2 (snd (scriptLoop svc t tg ov items ?w2))"
      by (rule Cons.IH)
    then have *: "calls (snd (scriptLoop svc t tg ov items ?w2)) =
        calls w @ ((GenerateScriptBlock item t tg ov, ui w) #
           newCalls ?w2 (snd (scriptLoop svc t tg ov items ?w2)))"
      by simp
    have **: "scriptLoop svc t tg ov (item # items) w = scriptLoop svc t tg ov items ?w2"
      using Inr by (simp add: generateScriptBlock_def Let_def)
    show ?thesis
      unfolding ** using * newCalls_append [OF *] by simp
  qed
qed


lemma loopTrace_Cons:
  "loopTrace t tg ov (item # items) s (tx # txts) (Suc m) =
     (GenerateScriptBlock item t tg ov, s) #
     loopTrace t tg ov items (s\<lparr>scriptBlocks := scriptBlocks s @ [newBlock item tx]\<rparr>) txts m"
  by (simp add: loopTrace_def map_upt_Suc del: upt_Suc)

lemma scriptLoop_char: "\<exists>txts. loopRun svc t tg ov items w txts"
proof (induction items arbitrary: w)
  case Nil
  show ?case by (simp add: loopRun_def loopTrace_def newCalls_def)
next
  case (Cons item items)
  let ?rq = "GenerateScriptBlock item t tg ov"
  show ?case
  proof (cases "scriptBlockAnswer svc (history w @ [?rq])")
    case (Inl e)
    then have eq: "scriptLoop svc t tg ov (item # items) w = (Some e, issue ?rq w)"
      by (simp add: generateScriptBlock_def Let_def)
    have "loopRun svc t tg ov (item # items) w []"
      unfolding loopRun_def eq using Inl
      by (simp add: loopTrace_def newCalls_def)
    then show ?thesis ..
  next
    case (Inr tx)
    let ?w2 = "appendScriptBlock (newBlock item tx) (issue ?rq w)"
    let ?R = "scriptLoop svc t tg ov items ?w2"
    have step: "scriptLoop svc t tg ov (item # items) w = ?R"
      using Inr by (simp add: generateScriptBlock_def Let_def)
    from Cons.IH [of ?w2] obtain txts where IH: "loopRun svc t tg ov items ?w2 txts" ..
    have "calls (snd ?R) = calls ?w2 @ newCalls ?w2 (snd ?R)"
      by (rule scriptLoop_calls)
    then have "calls (snd ?R) = calls w @ ((?rq, ui w) # newCalls ?w2 (snd ?R))"
      by simp
    then have nc: "newCalls w (snd ?R) = (?rq, ui w) # newCalls ?w2 (snd ?R)"
      by (rule newCalls_append)
    have ans: "\<forall>i<length (tx # txts).
        scriptBlockAnswer svc
          (history w @ map fst (loopTrace t tg ov (item # items) (ui w) (tx # txts) (Suc i))) =
        Inr ((tx # txts) ! i)"
    proof (intro allI impI)
      fix i assume i: "i < length (tx # txts)"
      show "scriptBlockAnswer svc
          (history w @ map fst (loopTrace t tg ov (item # items) (ui w) (tx # txts) (Suc i))) =
        Inr ((tx # txts) ! i)"
      proof (cases i)
        case 0
        then show ?thesis
          using Inr by (simp add: loopTrace_def)
      next
        case (Suc j)
        then have "j < length txts" using i by simp
        then have "scriptBlockAnswer svc
            (history ?w2 @ map fst (loopTrace t tg ov items (ui ?w2) txts (Suc j))) = Inr (txts ! j)"
          using IH by (simp add: loopRun_def)
        then show ?thesis
          unfolding Suc by (simp add: loopTrace_Cons)
      qed
    qed
    have rej: "\<forall>e. fst ?R = Some e \<longrightarrow>
        scriptBlockAnswer svc
          (history w @ map fst (loopTrace t tg ov (item # items) (ui w) (tx # txts)
             (Suc (length (tx # txts))))) = Inl e"
      using IH by (simp add: loopRun_def loopTrace_Cons)
    have "loopRun svc t tg ov (item # items) w (tx # txts)"
      using IH ans rej unfolding loopRun_def step nc
      by (simp add: loopTrace_Cons)
    then show ?thesis ..
  qed
qed

subsection \<open>The gate and the runs of \<open>handleGenerateScript\<close>\<close>

lemma withErrorHandling_pass:
  "gate rv (ui w) = None \<Longrightarrow>
   withErrorHandling rv fn k w =
     (case fst (fn (setLoading k True (setError None w))) of
        None \<Rightarrow> setLoading k False (snd (fn (setLoading k True (setError None w))))
      | Some e \<Rightarrow>
          setLoading k False
            (setError (Some (errorMessage k e)) (snd (fn (setLoading k True (setError None w))))))"
  by (simp add: withErrorHandling_def split: prod.splits option.splits)

lemma entered_simps [simp]:
  "bookTitle (entered k s) = bookTitle s"
  "frameRatio (entered k s) = frameRatio s"
  "durationMin (entered k s) = durationMin s"
  "chaptersCount (entered k s) = chaptersCount s"
  "selectedModel (entered k s) = selectedModel s"
  "apiKeyGemini (entered k s) = apiKeyGemini s"
  "apiKeyOpenAI (entered k s) = apiKeyOpenAI s"
  "outline (entered k s) = outline s"
  "seo (entered k s) = seo s"
  "scriptBlocks (entered k s) = scriptBlocks s"
  "videoPrompts (entered k s) = videoPrompts s"
  "thumbTextIdeas (entered k s) = thumbTextIdeas s"
  "loading (entered k s) = withKey k True (loading s)"
  "error (entered k s) = None"
  by (simp_all add: entered_def)

lemma overrideOf_simps [simp]:
  "overrideOf rv (s\<lparr>error := e\<rparr>) = overrideOf rv s"
  "overrideOf rv (s\<lparr>loading := l\<rparr>) = overrideOf rv s"
  "overrideOf rv (s\<lparr>scriptBlocks := bs\<rparr>) = overrideOf rv s"
  "overrideOf rv (s\<lparr>outline := ol\<rparr>) = overrideOf rv s"
  by (cases rv; simp add: overrideOf_def)+

lemma totalCharsTarget_simps [simp]:
  "totalCharsTarget (s\<lparr>error := e\<rparr>) = totalCharsTarget s"
  "totalCharsTarget (s\<lparr>loading := l\<rparr>) = totalCharsTarget s"
  "totalCharsTarget (s\<lparr>scriptBlocks := bs\<rparr>) = totalCharsTarget s"
  "totalCharsTarget (s\<lparr>outline := ol\<rparr>) = totalCharsTarget s"
  by (simp_all add: totalCharsTarget_def)

lemma withKey_False_True [simp]: "withKey k False (withKey k True l) = withKey k False l"
  by (cases k) simp_all

lemma busy_withKey [simp]: "busy (withKey k v l) k = v"
  by (cases k) simp_all

lemma newCalls_simps [simp]:
  "newCalls w (setError e w') = newCalls w w'"
  "newCalls w (setLoading k v w') = newCalls w w'"
  "newCalls w (setOutline ol w') = newCalls w w'"
  "newCalls w (setSeo se w') = newCalls w w'"
  "newCalls w (setScriptBlocks bs w') = newCalls w w'"
  "newCalls w (setVideoPrompts ps w') = newCalls w w'"
  "newCalls w (setThumbTextIdeas ts w') = newCalls w w'"
  "newCalls (setError e w) w' = newCalls w w'"
  "newCalls (setLoading k v w) w' = newCalls w w'"
  "newCalls (setOutline ol w) w' = newCalls w w'"
  "newCalls (setScriptBlocks bs w) w' = newCalls w w'"
  by (simp_all add: newCalls_def)

lemma script_from_loop:
  assumes g: "gate rv (ui w) = None"
    and body: "scriptBody rv svc (setLoading Script True (setError None w)) =
        scriptLoop svc (bookTitle (ui w1))
          (charsPerBlock (totalCharsTarget (ui w1)) (length items)) (overrideOf rv (ui w1))
          items w1"
    and c1: "calls w1 = calls w @ pre"
    and sb: "scriptBlocks (ui w1) = []"
    and en: "error (ui w1) = None"
  shows "\<exists>txts. scriptRun rv svc w items (ui w1) pre txts"
proof -
  let ?t = "bookTitle (ui w1)"
  let ?tg = "charsPerBlock (totalCharsTarget (ui w1)) (length items)"
  let ?ov = "overrideOf rv (ui w1)"
  let ?R = "scriptLoop svc ?t ?tg ?ov items w1"
  obtain txts where run: "loopRun svc ?t ?tg ?ov items w1 txts"
    using scriptLoop_char ..
  note len = run [unfolded loopRun_def, THEN conjunct1]
  note uiR = run [unfolded loopRun_def, THEN conjunct2, THEN conjunct1, unfolded sb]
  note fin = run [unfolded loopRun_def, THEN conjunct2, THEN conjunct2, THEN conjunct1]
  note cs = run [unfolded loopRun_def, THEN conjunct2, THEN conjunct2, THEN conjunct2,
      THEN conjunct1]
  note an = run [unfolded loopRun_def, THEN conjunct2, THEN conjunct2, THEN conjunct2,
      THEN conjunct2, THEN conjunct1]
  note rj = run [unfolded loopRun_def, THEN conjunct2, THEN conjunct2, THEN conjunct2,
      THEN conjunct2, THEN conjunct2]
  have h1: "history w1 = history w @ map fst pre"
    by (simp add: history_def c1)
  have "calls (snd ?R) = calls w1 @ newCalls w1 (snd ?R)"
    by (rule scriptLoop_calls)
  then have "calls (snd ?R) = calls w @ (pre @ newCalls w1 (snd ?R))"
    by (simp add: c1)
  then have nc: "newCalls w (snd ?R) = pre @ newCalls w1 (snd ?R)"
    by (rule newCalls_append)
  have hw: "handleGenerateScript rv svc w =
     (case fst ?R of None \<Rightarrow> setLoading Script False (snd ?R)
      | Some e \<Rightarrow> setLoading Script False (setError (Some (errorMessage Script e)) (snd ?R)))"
    unfolding handleGenerateScript_def withErrorHandling_pass [OF g] body by (rule refl)
  have calls': "newCalls w (handleGenerateScript rv svc w) = newCalls w (snd ?R)"
    unfolding hw by (simp split: option.splits)
  have ui': "ui (handleGenerateScript rv svc w) =
      (ui w1)\<lparr>scriptBlocks := map2 newBlock items txts,
          loading := withKey Script False (loading (ui w1)),
          error := (case fst ?R of None \<Rightarrow> None | Some e \<Rightarrow> Some (errorMessage Script e))\<rparr>"
  proof (cases "fst ?R")
    case None
    have "(ui w1)\<lparr>scriptBlocks := map2 newBlock items txts,
          loading := withKey Script False (loading (ui w1)), error := None\<rparr> =
        (ui w1)\<lparr>scriptBlocks := map2 newBlock items txts,
          loading := withKey Script False (loading (ui w1))\<rparr>"
      using en by (cases "ui w1") simp
    then show ?thesis
      unfolding hw using uiR None by simp
  next
    case (Some e)
    then show ?thesis
      unfolding hw using uiR by simp
  qed
  have e: "(case fst ?R of None \<Rightarrow> None | Some e \<Rightarrow> Some (errorMessage Script e)) = None
      \<longleftrightarrow> length txts = length items"
    using fin by (cases "fst ?R") simp_all
  have "scriptRun rv svc w items (ui w1) pre txts"
    unfolding scriptRun_def calls' nc cs ui'
  proof (intro conjI exI)
    show "length txts \<le> length items" by (rule len)
    show "(case fst ?R of None \<Rightarrow> None | Some e \<Rightarrow> Some (errorMessage Script e)) = None
      \<longleftrightarrow> length txts = length items" by (rule e)
    show "\<forall>i<length txts.
        scriptBlockAnswer svc (history w @ map fst pre @ map fst (loopTrace ?t ?tg ?ov items (ui w1) txts (Suc i))) =
        Inr (txts ! i)"
      using an by (simp add: h1)
    show "length txts < length items \<longrightarrow>
        (\<exists>e. scriptBlockAnswer svc
               (history w @ map fst pre @
                map fst (loopTrace ?t ?tg ?ov items (ui w1) txts (Suc (length txts)))) = Inl e \<and>
             error ((ui w1)\<lparr>scriptBlocks := map2 newBlock items txts,
                     loading := withKey Script False (loading (ui w1)),
                     error := (case fst ?R of None \<Rightarrow> None
                               | Some e \<Rightarrow> Some (errorMessage Script e))\<rparr>) =
               Some (errorMessage Script e))"
    proof
      assume "length txts < length items"
      with fin obtain e where e: "fst ?R = Some e"
        by (cases "fst ?R") auto
      with rj have "scriptBlockAnswer svc
          (history w1 @ map fst (loopTrace ?t ?tg ?ov items (ui w1) txts (Suc (length txts)))) = Inl e"
        by blast
      then show "\<exists>e. scriptBlockAnswer svc
               (history w @ map fst pre @
                map fst (loopTrace ?t ?tg ?ov items (ui w1) txts (Suc (length txts)))) = Inl e \<and>
             error ((ui w1)\<lparr>scriptBlocks := map2 newBlock items txts,
                     loading := withKey Script False (loading (ui w1)),
                     error := (case fst ?R of None \<Rightarrow> None
                               | Some e \<Rightarrow> Some (errorMessage Script e))\<rparr>) =
               Some (errorMessage Script e)"
        using e by (intro exI [of _ e]) (simp add: h1)
    qed
  qed (simp_all add: fin)
  then show ?thesis ..
qed

lemma script_stored:
  assumes g: "gate rv (ui w) = None" and ne: "outline (ui w) \<noteq> []"
  shows "\<exists>txts. scriptRun rv svc w (outline (ui w))
           ((entered Script (ui w))\<lparr>scriptBlocks := []\<rparr>) [] txts"
proof -
  let ?w1 = "setScriptBlocks [] (setLoading Script True (setError None w))"
  have ui1: "ui ?w1 = (entered Script (ui w))\<lparr>scriptBlocks := []\<rparr>"
    by (simp add: entered_def)
  have "\<exists>txts. scriptRun rv svc w (outline (ui w)) (ui ?w1) [] txts"
    using g
  proof (rule script_from_loop)
    show "scriptBody rv svc (setLoading Script True (setError None w)) =
        scriptLoop svc (bookTitle (ui ?w1))
          (charsPerBlock (totalCharsTarget (ui ?w1)) (length (outline (ui w))))
          (overrideOf rv (ui ?w1)) (outline (ui w)) ?w1"
      using ne by (simp add: scriptBody_def currentOutline_def)
  qed simp_all
  then show ?thesis
    unfolding ui1 .
qed

lemma script_generated:
  assumes g: "gate rv (ui w) = None" and emp: "outline (ui w) = []"
    and ans: "outlineAnswer svc (history w @ [outlineRequest rv (ui w)]) = Inr generated"
  shows "\<exists>txts. scriptRun rv svc w (withIndex generated)
           ((entered Script (ui w))\<lparr>scriptBlocks := [], outline := withIndex generated\<rparr>)
           [(outlineRequest rv (ui w), (entered Script (ui w))\<lparr>scriptBlocks := []\<rparr>)] txts"
proof -
  let ?w1 = "setOutline (withIndex generated) (issue (outlineRequest rv (ui w))
      (setScriptBlocks [] (setLoading Script True (setError None w))))"
  have ui1: "ui ?w1 = (entered Script (ui w))\<lparr>scriptBlocks := [], outline := withIndex generated\<rparr>"
    by (simp add: entered_def)
  have "\<exists>txts. scriptRun rv svc w (withIndex generated) (ui ?w1)
      [(outlineRequest rv (ui w), (entered Script (ui w))\<lparr>scriptBlocks := []\<rparr>)] txts"
    using g
  proof (rule script_from_loop)
    show "scriptBody rv svc (setLoading Script True (setError None w)) =
        scriptLoop svc (bookTitle (ui ?w1))
          (charsPerBlock (totalCharsTarget (ui ?w1)) (length (withIndex generated)))
          (overrideOf rv (ui ?w1)) (withIndex generated) ?w1"
      using emp ans
      by (simp add: scriptBody_def currentOutline_def generateOutline_def Let_def
          outlineRequest_def)
  qed (simp_all add: entered_def)
  then show ?thesis
    unfolding ui1 .
qed

lemma script_outline_failed:
  assumes g: "gate rv (ui w) = None" and emp: "outline (ui w) = []"
    and ans: "outlineAnswer svc (history w @ [outlineRequest rv (ui w)]) = Inl e"
  shows "newCalls w (handleGenerateScript rv svc w) =
           [(outlineRequest rv (ui w), (entered Script (ui w))\<lparr>scriptBlocks := []\<rparr>)]
       \<and> ui (handleGenerateScript rv svc w) =
           (ui w)\<lparr>scriptBlocks := [], loading := withKey Script False (loading (ui w)),
                  error := Some (errorMessage Script e)\<rparr>"
proof -
  let ?w1 = "issue (outlineRequest rv (ui w))
      (setScriptBlocks [] (setLoading Script True (setError None w)))"
  have body: "scriptBody rv svc (setLoading Script True (setError None w)) = (Some e, ?w1)"
    using emp ans
    by (simp add: scriptBody_def currentOutline_def generateOutline_def Let_def
        outlineRequest_def)
  have hw: "handleGenerateScript rv svc w =
      setLoading Script False (setError (Some (errorMessage Script e)) ?w1)"
    unfolding handleGenerateScript_def withErrorHandling_pass [OF g] body by simp
  show ?thesis
    unfolding hw by (simp add: newCalls_def entered_def)
qed

subsection \<open>Rounding, and the requests of the loop\<close>

lemma round_quotient:
  assumes "0 < b"
  shows "round (rat_of_int a / rat_of_nat b) = (2 * a + int b) div (2 * int b)"
proof -
  have "rat_of_int a / rat_of_nat b + 1 / 2 = rat_of_int (2 * a + int b) / rat_of_int (2 * int b)"
    using assms by (simp add: field_simps)
  then show ?thesis
    unfolding round_def by (simp only: floor_divide_of_int_eq)
qed

lemma charsPerBlock_div:
  "0 < n \<Longrightarrow> charsPerBlock a n = Some ((2 * a + int n) div (2 * int n))"
  by (simp add: charsPerBlock_def round_quotient)

lemma loopTrace_requests:
  assumes "(rq, s') \<in> set (loopTrace t tg ov items s txts m)"
  shows "\<exists>i<m. rq = GenerateScriptBlock (items ! i) t tg ov"
  using assms by (auto simp: loopTrace_def)

lemma loopTrace_first:
  "0 < m \<Longrightarrow> (GenerateScriptBlock (items ! 0) t tg ov, s) \<in> set (loopTrace t tg ov items s txts m)"
  by (auto simp: loopTrace_def image_iff intro!: bexI [of _ 0])

lemma script_cases:
  assumes g: "gate rv (ui w) = None"
  obtains (stored) txts where "outline (ui w) \<noteq> []"
      and "scriptRun rv svc w (outline (ui w)) ((entered Script (ui w))\<lparr>scriptBlocks := []\<rparr>) [] txts"
    | (failed) e where "outline (ui w) = []"
      and "outlineAnswer svc (history w @ [outlineRequest rv (ui w)]) = Inl e"
      and "newCalls w (handleGenerateScript rv svc w) =
           [(outlineRequest rv (ui w), (entered Script (ui w))\<lparr>scriptBlocks := []\<rparr>)]"
      and "ui (handleGenerateScript rv svc w) =
           (ui w)\<lparr>scriptBlocks := [], loading := withKey Script False (loading (ui w)),
                  error := Some (errorMessage Script e)\<rparr>"
    | (generated) generated txts where "outline (ui w) = []"
      and "outlineAnswer svc (history w @ [outlineRequest rv (ui w)]) = Inr generated"
      and "scriptRun rv svc w (withIndex generated)
           ((entered Script (ui w))\<lparr>scriptBlocks := [], outline := withIndex generated\<rparr>)
           [(outlineRequest rv (ui w), (entered Script (ui w))\<lparr>scriptBlocks := []\<rparr>)] txts"
proof (cases "outline (ui w) = []")
  case False
  with script_stored [OF g, of svc] stored show ?thesis by blast
next
  case True
  show ?thesis
  proof (cases "outlineAnswer svc (history w @ [outlineRequest rv (ui w)])")
    case (Inl e)
    from script_outline_failed [OF g True Inl] failed [OF True Inl] show ?thesis by blast
  next
    case (Inr generated)
    from script_generated [OF g True Inr] generated [OF True Inr] show ?thesis by blast
  qed
qed

lemmas model_defs =
  handleGenerateScript_def handleGenerateOutline_def handleGenerateSEO_def
  handleGeneratePrompts_def withErrorHandling_def gate_def scriptBody_def outlineBody_def
  seoBody_def promptsBody_def currentOutline_def generateOutline_def generateSEO_def
  generateScriptBlock_def generateVideoPrompts_def generateThumbIdeas_def issue_def
  history_def setError_def setLoading_def setOutline_def setSeo_def setScriptBlocks_def
  appendScriptBlock_def setVideoPrompts_def setThumbTextIdeas_def overrideOf_def
  totalCharsTarget_def newBlock_def withIndex_def enumerate_eq_zip startsWith_def Let_def

lemmas sample_defs =
  okService_def readyWorld_def initialState_def sampleOutline_def sampleSEO_def
  INITIAL_LOADING_STATES_def js_def

subsection \<open>The runs of the other three handlers\<close>

lemma outline_run:
  assumes "gate rv (ui w) = None"
  shows "calls (handleGenerateOutline rv svc w) =
           calls w @ [(outlineRequest rv (ui w), entered Outline (ui w))]"
    and "ui (handleGenerateOutline rv svc w) =
           (case outlineAnswer svc (history w @ [outlineRequest rv (ui w)]) of
              Inl e \<Rightarrow> (ui w)\<lparr>loading := withKey Outline False (loading (ui w)),
                              error := Some (errorMessage Outline e)\<rparr>
            | Inr result \<Rightarrow> (ui w)\<lparr>outline := withIndex result,
                              loading := withKey Outline False (loading (ui w)), error := None\<rparr>)"
  using assms
  by (simp_all add: handleGenerateOutline_def withErrorHandling_def outlineBody_def
      generateOutline_def Let_def entered_def outlineRequest_def overrideOf_def
      split: sum.splits revision.splits)

lemma seo_run:
  assumes "gate rv (ui w) = None"
  shows "calls (handleGenerateSEO rv svc w) = calls w @ [(seoRequest rv (ui w), entered Seo (ui w))]"
    and "ui (handleGenerateSEO rv svc w) =
           (case seoAnswer svc (history w @ [seoRequest rv (ui w)]) of
              Inl e \<Rightarrow> (ui w)\<lparr>loading := withKey Seo False (loading (ui w)),
                              error := Some (errorMessage Seo e)\<rparr>
            | Inr result \<Rightarrow> (ui w)\<lparr>seo := Some result,
                              loading := withKey Seo False (loading (ui w)), error := None\<rparr>)"
  using assms
  by (simp_all add: handleGenerateSEO_def withErrorHandling_def seoBody_def
      generateSEO_def Let_def entered_def seoRequest_def overrideOf_def
      split: sum.splits revision.splits)

lemma prompts_run:
  assumes "gate rv (ui w) = None"
  shows "calls (handleGeneratePrompts rv svc w) =
           calls w @ [(videoPromptsRequest rv (ui w), entered Prompts (ui w)),
                      (thumbIdeasRequest rv (ui w), entered Prompts (ui w))]"
    and "ui (handleGeneratePrompts rv svc w) =
           (case promiseAll2
                   (thumbsSettleFirst svc
                      (history w @ [videoPromptsRequest rv (ui w), thumbIdeasRequest rv (ui w)]))
                   (videoPromptsAnswer svc (history w @ [videoPromptsRequest rv (ui w)]))
                   (thumbIdeasAnswer svc
                      (history w @ [videoPromptsRequest rv (ui w), thumbIdeasRequest rv (ui w)])) of
              Inl e \<Rightarrow> (ui w)\<lparr>loading := withKey Prompts False (loading (ui w)),
                              error := Some (errorMessage Prompts e)\<rparr>
            | Inr (prompts, thumbs) \<Rightarrow>
                (ui w)\<lparr>videoPrompts := prompts, thumbTextIdeas := thumbs,
                       loading := withKey Prompts False (loading (ui w)), error := None\<rparr>)"
  using assms
  by (simp_all add: handleGeneratePrompts_def withErrorHandling_def promptsBody_def
      generateVideoPrompts_def generateThumbIdeas_def Let_def entered_def
      videoPromptsRequest_def thumbIdeasRequest_def overrideOf_def
      split: sum.splits revision.splits prod.splits)

subsection \<open>Every handler only adds calls\<close>

lemma handler_blocked:
  "gate rv (ui w) = Some m \<Longrightarrow> handler k rv svc w = setError (Some m) w"
  by (cases k)
    (simp_all add: handleGenerateOutline_def handleGenerateSEO_def handleGenerateScript_def
      handleGeneratePrompts_def withErrorHandling_def)

lemma scriptBody_calls: "\<exists>cs. calls (snd (scriptBody rv svc w)) = calls w @ cs"
proof -
  have loop: "\<And>t tg ov items w1 pre. calls w1 = calls w @ pre \<Longrightarrow>
      \<exists>cs. calls (snd (scriptLoop svc t tg ov items w1)) = calls w @ cs"
    using scriptLoop_calls by (metis append.assoc)
  show ?thesis
  proof (cases "outline (ui w) = []")
    case False
    then have "scriptBody rv svc w =
        scriptLoop svc (bookTitle (ui w))
          (charsPerBlock (totalCharsTarget (ui w)) (length (outline (ui w))))
          (overrideOf rv (ui w)) (outline (ui w)) (setScriptBlocks [] w)"
      by (simp add: scriptBody_def currentOutline_def)
    then show ?thesis
      using loop [of "setScriptBlocks [] w" "[]"] by simp
  next
    case True
    let ?rq = "outlineRequest rv (ui w)"
    show ?thesis
    proof (cases "outlineAnswer svc (history w @ [?rq])")
      case (Inl e)
      then have "scriptBody rv svc w = (Some e, issue ?rq (setScriptBlocks [] w))"
        using True
        by (simp add: scriptBody_def currentOutline_def generateOutline_def Let_def
            outlineRequest_def)
      then show ?thesis by simp
    next
      case (Inr generated)
      let ?w1 = "setOutline (withIndex generated) (issue ?rq (setScriptBlocks [] w))"
      have "scriptBody rv svc w =
          scriptLoop svc (bookTitle (ui w))
            (charsPerBlock (totalCharsTarget (ui w)) (length (withIndex generated)))
            (overrideOf rv (ui w)) (withIndex generated) ?w1"
        using True Inr
        by (simp add: scriptBody_def currentOutline_def generateOutline_def Let_def
            outlineRequest_def)
      then show ?thesis
        using loop [of ?w1 "[(?rq, (ui w)\<lparr>scriptBlocks := []\<rparr>)]"] by simp
    qed
  qed
qed

lemma handler_calls: "calls (handler k rv svc w) = calls w @ newCalls w (handler k rv svc w)"
proof (cases "gate rv (ui w)")
  case (Some m)
  then show ?thesis
    by (simp add: handler_blocked newCalls_def)
next
  case None
  show ?thesis
  proof (cases k)
    case Outline
    then show ?thesis using outline_run(1) [OF None] by (simp add: newCalls_def)
  next
    case Seo
    then show ?thesis using seo_run(1) [OF None] by (simp add: newCalls_def)
  next
    case Prompts
    then show ?thesis using prompts_run(1) [OF None] by (simp add: newCalls_def)
  next
    case Script
    obtain cs where "calls (snd (scriptBody rv svc (setLoading Script True (setError None w)))) =
        calls (setLoading Script True (setError None w)) @ cs"
      using scriptBody_calls by blast
    then have "calls (handleGenerateScript rv svc w) = calls w @ cs"
      unfolding handleGenerateScript_def withErrorHandling_pass [OF None]
      by (simp split: option.splits)
    then show ?thesis
      using Script by (simp add: newCalls_def)
  qed
qed

subsection \<open>The counts of the blocks\<close>

lemma newBlock_exact: "b \<in> set (map2 newBlock items txts) \<Longrightarrow> charsExact b"
  by (auto simp: newBlock_def charsExact_def)

lemma loopTrace_exact:
  assumes "(rq, s') \<in> set (loopTrace t tg ov items s txts m)" and "scriptBlocks s = []"
    and "b \<in> set (scriptBlocks s')"
  shows "charsExact b"
proof -
  from assms(1) obtain i where
    "s' = s\<lparr>scriptBlocks := scriptBlocks s @ map2 newBlock items (take i txts)\<rparr>"
    by (auto simp: loopTrace_def)
  with assms(2,3) have "b \<in> set (map2 newBlock items (take i txts))"
    by simp
  then show ?thesis by (rule newBlock_exact)
qed

lemma scriptRun_exact:
  assumes r: "scriptRun rv svc w items s pre txts"
    and s0: "scriptBlocks s = []"
    and pre: "\<forall>(rq, s')\<in>set pre. scriptBlocks s' = []"
  shows "(\<forall>b\<in>set (scriptBlocks (ui (handleGenerateScript rv svc w))). charsExact b) \<and>
     (\<forall>(rq, s')\<in>set (newCalls w (handleGenerateScript rv svc w)).
        \<forall>b\<in>set (scriptBlocks s'). charsExact b)"
proof -
  let ?w' = "handleGenerateScript rv svc w"
  let ?tr = "loopTrace (bookTitle s) (charsPerBlock (totalCharsTarget s) (length items))
               (overrideOf rv s) items s txts
               (if length txts = length items then length txts else Suc (length txts))"
  from r have nc: "newCalls w ?w' = pre @ ?tr"
    and ex: "\<exists>err. ui ?w' = s\<lparr>scriptBlocks := map2 newBlock items txts,
            loading := withKey Script False (loading s), error := err\<rparr>"
    unfolding scriptRun_def by blast+
  from ex have sb: "scriptBlocks (ui ?w') = map2 newBlock items txts"
    by auto
  have 1: "\<forall>b\<in>set (scriptBlocks (ui ?w')). charsExact b"
    unfolding sb using newBlock_exact by blast
  have 2: "\<forall>(rq, s')\<in>set (newCalls w ?w'). \<forall>b\<in>set (scriptBlocks s'). charsExact b"
    unfolding nc using pre loopTrace_exact [OF _ s0] by fastforce
  from 1 2 show ?thesis ..
qed

lemma handler_exact:
  assumes inv: "\<forall>b\<in>set (scriptBlocks (ui w)). charsExact b"
  shows "(\<forall>b\<in>set (scriptBlocks (ui (handler k rv svc w))). charsExact b) \<and>
     (\<forall>(rq, s')\<in>set (newCalls w (handler k rv svc w)). \<forall>b\<in>set (scriptBlocks s'). charsExact b)"
proof (cases "gate rv (ui w)")
  case (Some m)
  then show ?thesis
    using inv by (simp add: handler_blocked newCalls_def)
next
  case None
  show ?thesis
  proof (cases k)
    case Outline
    then show ?thesis
      using inv outline_run [OF None, of svc]
      by (simp add: newCalls_def entered_def split: sum.splits)
  next
    case Seo
    then show ?thesis
      using inv seo_run [OF None, of svc]
      by (simp add: newCalls_def entered_def split: sum.splits)
  next
    case Prompts
    then show ?thesis
      using inv prompts_run [OF None, of svc]
      by (simp add: newCalls_def entered_def split: sum.splits prod.splits)
  next
    case Script
    from None have "(\<forall>b\<in>set (scriptBlocks (ui (handleGenerateScript rv svc w))). charsExact b) \<and>
     (\<forall>(rq, s')\<in>set (newCalls w (handleGenerateScript rv svc w)).
        \<forall>b\<in>set (scriptBlocks s'). charsExact b)"
    proof (cases rule: script_cases [where svc = svc])
      case (stored txts)
      from stored(2) show ?thesis
        by (rule scriptRun_exact) (simp_all add: entered_def)
    next
      case (failed e)
      then show ?thesis by simp
    next
      case (generated generated txts)
      from generated(3) show ?thesis
        by (rule scriptRun_exact) (simp_all add: entered_def)
    qed
    then show ?thesis using Script by simp
  qed
qed

lemma act_blocksExact: "blocksExact w \<Longrightarrow> blocksExact (act rv a w)"
proof (cases a)
  case (Click k svc)
  assume inv: "blocksExact w"
  then have "\<forall>b\<in>set (scriptBlocks (ui w)). charsExact b"
    by (simp add: blocksExact_def)
  note h = handler_exact [OF this, of k rv svc]
  have "calls (handler k rv svc w) = calls w @ newCalls w (handler k rv svc w)"
    by (rule handler_calls)
  then have "set (calls (handler k rv svc w)) = set (calls w) \<union> set (newCalls w (handler k rv svc w))"
    by (metis set_append)
  with h inv show ?thesis
    unfolding Click blocksExact_def by auto
qed (simp_all add: blocksExact_def)

lemma run_blocksExact: "blocksExact w \<Longrightarrow> blocksExact (run rv acts w)"
  by (induction acts arbitrary: w) (simp_all add: act_blocksExact)

lemma initial_blocksExact: "blocksExact initialWorld"
  by (simp add: blocksExact_def initialWorld_def initialState_def)

subsection \<open>Positions in the trace of the loop\<close>

lemma length_loopTrace [simp]: "length (loopTrace t tg ov items s txts m) = m"
  by (simp add: loopTrace_def)

lemma nth_loopTrace:
  "i < m \<Longrightarrow> loopTrace t tg ov items s txts m ! i =
     (GenerateScriptBlock (items ! i) t tg ov,
      s\<lparr>scriptBlocks := scriptBlocks s @ map2 newBlock items (take i txts)\<rparr>)"
  by (simp add: loopTrace_def)

lemma take_loopTrace:
  "k \<le> m \<Longrightarrow> take k (loopTrace t tg ov items s txts m) = loopTrace t tg ov items s txts k"
  by (simp add: loopTrace_def take_map min_def)

lemma map2_take: "map2 f xs (take i ys) = take i (map2 f xs ys)"
proof -
  have "zip xs (take i ys) = take i (zip xs ys)"
    by (induction xs ys arbitrary: i rule: list_induct2') (simp_all add: take_Cons' )
  then show ?thesis by (simp add: take_map)
qed

subsection \<open>Failed runs\<close>

lemma scriptRun_failure:
  assumes r: "scriptRun rv svc w items s pre txts"
    and f: "error (ui (handleGenerateScript rv svc w)) \<noteq> None"
  shows "ui (handleGenerateScript rv svc w) =
           s\<lparr>scriptBlocks := map2 newBlock items txts,
             loading := withKey Script False (loading s),
             error := error (ui (handleGenerateScript rv svc w))\<rparr>
       \<and> length txts < length items"
proof -
  from r obtain err where e: "err = None \<longleftrightarrow> length txts = length items"
    and u: "ui (handleGenerateScript rv svc w) =
          s\<lparr>scriptBlocks := map2 newBlock items txts,
            loading := withKey Script False (loading s), error := err\<rparr>"
    and len: "length txts \<le> length items"
    unfolding scriptRun_def by blast
  from u have "error (ui (handleGenerateScript rv svc w)) = err" by simp
  with e f u len show ?thesis by auto
qed

lemma scriptRun_rejected:
  assumes r: "scriptRun rv svc w items s pre txts"
    and f: "error (ui (handleGenerateScript rv svc w)) \<noteq> None"
  shows "length txts < length items"
    and "scriptBlocks (ui (handleGenerateScript rv svc w)) = map2 newBlock items txts"
    and "newCalls w (handleGenerateScript rv svc w) =
           pre @ loopTrace (bookTitle s) (charsPerBlock (totalCharsTarget s) (length items))
                   (overrideOf rv s) items s txts (Suc (length txts))"
    and "\<forall>i<length txts.
           scriptBlockAnswer svc
             (history w @
              map fst (take (length pre + i + 1) (newCalls w (handleGenerateScript rv svc w)))) =
           Inr (txts ! i)"
    and "\<exists>e. scriptBlockAnswer svc
               (history w @ map fst (newCalls w (handleGenerateScript rv svc w))) = Inl e
           \<and> error (ui (handleGenerateScript rv svc w)) = Some (errorMessage Script e)"
proof -
  let ?w' = "handleGenerateScript rv svc w"
  let ?tr = "loopTrace (bookTitle s) (charsPerBlock (totalCharsTarget s) (length items))
               (overrideOf rv s) items s txts"
  from scriptRun_failure [OF r f] show l: "length txts < length items"
    by (rule conjunct2)
  from scriptRun_failure [OF r f]
  have u: "ui ?w' = s\<lparr>scriptBlocks := map2 newBlock items txts,
             loading := withKey Script False (loading s), error := error (ui ?w')\<rparr>"
    by (rule conjunct1)
  show "scriptBlocks (ui ?w') = map2 newBlock items txts"
    by (subst u) simp
  from r have "newCalls w ?w' =
      pre @ ?tr (if length txts = length items then length txts else Suc (length txts))"
    unfolding scriptRun_def by (rule conjunct1 [OF conjunct2])
  with l show nc: "newCalls w ?w' = pre @ ?tr (Suc (length txts))"
    by simp
  from r have an: "\<forall>i<length txts.
      scriptBlockAnswer svc (history w @ map fst pre @ map fst (?tr (Suc i))) = Inr (txts ! i)"
    unfolding scriptRun_def by blast
  show "\<forall>i<length txts.
           scriptBlockAnswer svc
             (history w @ map fst (take (length pre + i + 1) (newCalls w ?w'))) = Inr (txts ! i)"
  proof (intro allI impI)
    fix i assume i: "i < length txts"
    then have "take (length pre + i + 1) (newCalls w ?w') = pre @ ?tr (Suc i)"
      unfolding nc by (simp add: take_loopTrace)
    with an i show "scriptBlockAnswer svc
             (history w @ map fst (take (length pre + i + 1) (newCalls w ?w'))) = Inr (txts ! i)"
      by simp
  qed
  from r l have "\<exists>e. scriptBlockAnswer svc
         (history w @ map fst pre @ map fst (?tr (Suc (length txts)))) = Inl e \<and>
       error (ui ?w') = Some (errorMessage Script e)"
    unfolding scriptRun_def by blast
  then show "\<exists>e. scriptBlockAnswer svc (history w @ map fst (newCalls w ?w')) = Inl e
           \<and> error (ui ?w') = Some (errorMessage Script e)"
    unfolding nc by simp
qed

lemma scriptRun_partial:
  assumes r: "scriptRun rv svc w items s pre txts"
    and f: "error (ui (handleGenerateScript rv svc w)) \<noteq> None"
  shows "length (scriptBlocks (ui (handleGenerateScript rv svc w))) < length items
       \<and> length (newCalls w (handleGenerateScript rv svc w)) =
           length pre + length (scriptBlocks (ui (handleGenerateScript rv svc w))) + 1
       \<and> (\<forall>i<length (scriptBlocks (ui (handleGenerateScript rv svc w))). \<exists>tx.
             scriptBlockAnswer svc
               (history w @
                map fst (take (length pre + i + 1) (newCalls w (handleGenerateScript rv svc w)))) =
               Inr tx
           \<and> scriptBlocks (ui (handleGenerateScript rv svc w)) ! i = newBlock (items ! i) tx)
       \<and> (\<forall>i\<le>length (scriptBlocks (ui (handleGenerateScript rv svc w))).
             fst (newCalls w (handleGenerateScript rv svc w) ! (length pre + i)) =
               GenerateScriptBlock (items ! i) (bookTitle s)
                 (charsPerBlock (totalCharsTarget s) (length items)) (overrideOf rv s))
       \<and> (\<exists>e. scriptBlockAnswer svc
               (history w @ map fst (newCalls w (handleGenerateScript rv svc w))) = Inl e
           \<and> error (ui (handleGenerateScript rv svc w)) = Some (errorMessage Script e))"
proof -
  let ?w' = "handleGenerateScript rv svc w"
  note R = scriptRun_rejected [OF r f]
  have n: "length (scriptBlocks (ui ?w')) = length txts"
    unfolding R(2) using R(1) by simp
  have 1: "length (scriptBlocks (ui ?w')) < length items"
    unfolding n by (rule R(1))
  have 2: "length (newCalls w ?w') = length pre + length (scriptBlocks (ui ?w')) + 1"
    unfolding n R(3) by simp
  have 3: "\<forall>i<length (scriptBlocks (ui ?w')). \<exists>tx.
             scriptBlockAnswer svc
               (history w @ map fst (take (length pre + i + 1) (newCalls w ?w'))) = Inr tx
           \<and> scriptBlocks (ui ?w') ! i = newBlock (items ! i) tx"
  proof (intro allI impI)
    fix i assume "i < length (scriptBlocks (ui ?w'))"
    then have i: "i < length txts" by (simp add: n)
    with R(4) have a: "scriptBlockAnswer svc
        (history w @ map fst (take (length pre + i + 1) (newCalls w ?w'))) = Inr (txts ! i)"
      by blast
    have b: "scriptBlocks (ui ?w') ! i = newBlock (items ! i) (txts ! i)"
      unfolding R(2) using i R(1) by simp
    from a b show "\<exists>tx.
             scriptBlockAnswer svc
               (history w @ map fst (take (length pre + i + 1) (newCalls w ?w'))) = Inr tx
           \<and> scriptBlocks (ui ?w') ! i = newBlock (items ! i) tx"
      by blast
  qed
  have 4: "\<forall>i\<le>length (scriptBlocks (ui ?w')).
             fst (newCalls w ?w' ! (length pre + i)) =
               GenerateScriptBlock (items ! i) (bookTitle s)
                 (charsPerBlock (totalCharsTarget s) (length items)) (overrideOf rv s)"
    unfolding n R(3) by (simp add: nth_loopTrace)
  from 1 2 3 4 R(5) show ?thesis
    by (intro conjI)
qed

subsection \<open>The states in which the calls are made\<close>

lemma loopTrace_frame:
  assumes "(rq, s') \<in> set (loopTrace t tg ov items s txts m)"
  shows "error s' = error s \<and> loading s' = loading s"
  using assms by (auto simp: loopTrace_def)

lemma scriptRun_snapshots:
  assumes r: "scriptRun rv svc w items s pre txts"
    and s0: "error s = None" "loading s = l"
    and pre: "\<forall>(rq, s')\<in>set pre. error s' = None \<and> loading s' = l"
    and ne: "pre \<noteq> [] \<or> items \<noteq> []"
  shows "newCalls w (handleGenerateScript rv svc w) \<noteq> []
       \<and> (\<forall>(rq, s')\<in>set (newCalls w (handleGenerateScript rv svc w)).
             error s' = None \<and> loading s' = l)"
proof -
  let ?m = "if length txts = length items then length txts else Suc (length txts)"
  let ?tr = "loopTrace (bookTitle s) (charsPerBlock (totalCharsTarget s) (length items))
               (overrideOf rv s) items s txts ?m"
  from r have nc: "newCalls w (handleGenerateScript rv svc w) = pre @ ?tr"
    unfolding scriptRun_def by blast
  have "items \<noteq> [] \<Longrightarrow> 0 < ?m" by auto
  then have "items \<noteq> [] \<Longrightarrow> ?tr \<noteq> []"
    by (metis length_loopTrace length_greater_0_conv)
  with ne have 1: "pre @ ?tr \<noteq> []" by auto
  have 2: "\<forall>(rq, s')\<in>set (pre @ ?tr). error s' = None \<and> loading s' = l"
    using pre loopTrace_frame [of _ _ "bookTitle s" _ "overrideOf rv s" items s txts ?m] s0
    by fastforce
  from 1 2 show ?thesis unfolding nc ..
qed

lemma handler_snapshots:
  assumes g: "gate rv (ui w) = None"
  shows "newCalls w (handler k rv svc w) \<noteq> []
       \<and> (\<forall>(rq, s)\<in>set (newCalls w (handler k rv svc w)).
             error s = None \<and> loading s = withKey k True (loading (ui w)))"
proof (cases k)
  case Outline
  show ?thesis
    unfolding Outline using newCalls_append [OF outline_run(1) [OF g, of svc]]
    by (simp add: entered_def)
next
  case Seo
  show ?thesis
    unfolding Seo using newCalls_append [OF seo_run(1) [OF g, of svc]]
    by (simp add: entered_def)
next
  case Prompts
  show ?thesis
    unfolding Prompts using newCalls_append [OF prompts_run(1) [OF g, of svc]]
    by (simp add: entered_def)
next
  case Script
  have "newCalls w (handleGenerateScript rv svc w) \<noteq> []
       \<and> (\<forall>(rq, s)\<in>set (newCalls w (handleGenerateScript rv svc w)).
             error s = None \<and> loading s = withKey Script True (loading (ui w)))"
    using g
  proof (cases rule: script_cases [where svc = svc])
    case (stored txts)
    from stored(2) show ?thesis
      by (rule scriptRun_snapshots) (simp_all add: entered_def stored(1))
  next
    case (failed e)
    then show ?thesis by (simp add: entered_def)
  next
    case (generated generated txts)
    from generated(3) show ?thesis
      by (rule scriptRun_snapshots) (simp_all add: entered_def)
  qed
  then show ?thesis unfolding Script by simp
qed

subsection \<open>The slug\<close>

lemma hyphen_not_az09 [simp]: "\<not> is_az09 hyphen"
  by (simp add: is_az09_def hyphen_def)

lemma alnumWords_empty_iff: "alnumWords t = [] \<longleftrightarrow> (\<forall>c\<in>set t. \<not> is_az09 c)"
  by (induction t rule: alnumWords.induct) auto

lemma alnumWords_dropWhile: "alnumWords (dropWhile (\<lambda>d. \<not> is_az09 d) t) = alnumWords t"
  by (induction t) auto

lemma alnumWords_words: "w \<in> set (alnumWords t) \<Longrightarrow> w \<noteq> [] \<and> (\<forall>c\<in>set w. is_az09 c)"
proof (induction t rule: alnumWords.induct)
  case 1
  then show ?case by simp
next
  case (2 c cs)
  show ?case
  proof (cases "is_az09 c")
    case True
    with "2.prems" have "w = c # takeWhile is_az09 cs \<or> w \<in> set (alnumWords (dropWhile is_az09 cs))"
      by simp
    then show ?thesis
    proof
      assume "w = c # takeWhile is_az09 cs"
      with True show ?thesis
        by (auto dest: set_takeWhileD)
    next
      assume "w \<in> set (alnumWords (dropWhile is_az09 cs))"
      then show ?thesis by (rule "2.IH"(1) [OF True])
    qed
  next
    case False
    with "2.prems" have "w \<in> set (alnumWords cs)" by simp
    then show ?thesis by (rule "2.IH"(2) [OF False])
  qed
qed

lemma join_Cons_Cons: "join sep ((c # w) # ws) = c # join sep (w # ws)"
  by (cases ws) simp_all

lemma join_Cons: "join sep (w # ws) = (if ws = [] then w else w @ sep @ join sep ws)"
  by (cases ws) simp_all

lemma replaceRuns_words:
  "replaceRuns t = lead t @ join [hyphen] (alnumWords t) @ trail t"
proof (induction t rule: replaceRuns.induct)
  case 1
  show ?case by (simp add: lead_def trail_def)
next
  case (2 c cs)
  show ?case
  proof (cases "is_az09 c")
    case True
    note IH = "2.IH"(1) [OF True]
    show ?thesis
    proof (cases cs)
      case Nil
      with True show ?thesis by (simp add: lead_def trail_def)
    next
      case (Cons d ds)
      show ?thesis
      proof (cases "is_az09 d")
        case d: True
        with True Cons IH show ?thesis
          by (simp add: lead_def trail_def join_Cons_Cons)
      next
        case d: False
        show ?thesis
        proof (cases "alnumWords cs = []")
          case e: True
          then have "\<forall>x\<in>set cs. \<not> is_az09 x"
            by (simp only: alnumWords_empty_iff)
          moreover have "last cs \<in> set cs"
            using Cons by simp
          ultimately have "\<not> is_az09 (last cs)"
            by blast
          with True Cons IH d e show ?thesis
            by (simp add: lead_def trail_def)
        next
          case e: False
          with True Cons IH d show ?thesis
            by (simp add: lead_def trail_def join_Cons)
        qed
      qed
    qed
  next
    case False
    let ?r = "dropWhile (\<lambda>d. \<not> is_az09 d) cs"
    note IH = "2.IH"(2) [OF False]
    have l: "lead ?r = []"
    proof (cases ?r)
      case Nil
      show ?thesis unfolding lead_def Nil by simp
    next
      case (Cons a as)
      then have "?r \<noteq> []" by simp
      from hd_dropWhile [OF this] have "is_az09 a" unfolding Cons by simp
      then show ?thesis unfolding lead_def Cons by simp
    qed
    have w: "alnumWords ?r = alnumWords cs"
      by (rule alnumWords_dropWhile)
    have t: "trail ?r = trail (c # cs)"
    proof (cases "alnumWords cs = []")
      case True
      with False show ?thesis by (simp add: trail_def w)
    next
      case ne: False
      have "?r \<noteq> []"
      proof
        assume "?r = []"
        then have "alnumWords ?r = []" by (simp only: alnumWords.simps)
        with w ne show False by simp
      qed
      then have "last ?r = last cs"
        by (metis last_appendR takeWhile_dropWhile_id)
      moreover from \<open>?r \<noteq> []\<close> have "cs \<noteq> []" by auto
      ultimately show ?thesis
        using False ne by (simp add: trail_def w)
    qed
    have l': "lead (c # cs) = [hyphen]"
      using False by (simp add: lead_def)
    have "replaceRuns (c # cs) = hyphen # replaceRuns ?r"
      using False by simp
    also have "\<dots> = hyphen # join [hyphen] (alnumWords cs) @ trail (c # cs)"
      unfolding IH l w t by simp
    also have "\<dots> = lead (c # cs) @ join [hyphen] (alnumWords (c # cs)) @ trail (c # cs)"
      unfolding l' using False by simp
    finally show ?thesis .
  qed
qed

lemma join_words_ends:
  assumes "ws \<noteq> []" and "\<forall>w\<in>set ws. w \<noteq> [] \<and> (\<forall>c\<in>set w. is_az09 c)"
  shows "join [hyphen] ws \<noteq> [] \<and> is_az09 (hd (join [hyphen] ws)) \<and> is_az09 (last (join [hyphen] ws))"
  using assms
proof (induction "[hyphen]" ws rule: join.induct)
  case 1
  then show ?case by simp
next
  case (2 x)
  then show ?case by simp
next
  case (3 x y ys)
  then have "join [hyphen] (y # ys) \<noteq> []" "is_az09 (last (join [hyphen] (y # ys)))"
    by simp_all
  moreover from "3.prems" have "x \<noteq> []" "is_az09 (hd x)" by simp_all
  ultimately show ?case by simp
qed

lemma trimHyphen_wrapped:
  assumes "j \<noteq> []" "hd j \<noteq> hyphen" "last j \<noteq> hyphen"
    and "l = [] \<or> l = [hyphen]" and "r = [] \<or> r = [hyphen]"
  shows "trimHyphen (l @ j @ r) = j"
proof -
  obtain a as where j: "j = a # as" using assms(1) by (cases j) auto
  with assms(2) have a: "a \<noteq> hyphen" by simp
  have 1: "(case l @ j @ r of [] \<Rightarrow> [] | c # cs \<Rightarrow> if c = hyphen then cs else l @ j @ r) = j @ r"
    using assms(4) a by (auto simp: j)
  have 2: "(if j @ r \<noteq> [] \<and> last (j @ r) = hyphen then butlast (j @ r) else j @ r) = j"
    using assms(1,3,5) by (auto simp: butlast_append)
  show ?thesis
    unfolding trimHyphen_def 1 Let_def 2 ..
qed

lemma lead_cases: "lead t = [] \<or> lead t = [hyphen]"
  by (simp add: lead_def split: list.splits)

lemma trail_cases: "trail t = [] \<or> trail t = [hyphen]"
  by (simp add: trail_def)

lemma trimHyphen_replaceRuns: "trimHyphen (replaceRuns t) = join [hyphen] (alnumWords t)"
proof (cases "alnumWords t = []")
  case True
  then have "replaceRuns t = lead t"
    by (simp add: replaceRuns_words trail_def)
  with lead_cases [of t] True show ?thesis
    by (auto simp: trimHyphen_def)
next
  case False
  with alnumWords_words have e: "join [hyphen] (alnumWords t) \<noteq> []"
    "is_az09 (hd (join [hyphen] (alnumWords t)))" "is_az09 (last (join [hyphen] (alnumWords t)))"
    using join_words_ends [of "alnumWords t"] by blast+
  then have "hd (join [hyphen] (alnumWords t)) \<noteq> hyphen" "last (join [hyphen] (alnumWords t)) \<noteq> hyphen"
    by auto
  with e(1) show ?thesis
    unfolding replaceRuns_words [of t]
    by (intro trimHyphen_wrapped lead_cases trail_cases)
qed

lemma set_stripDiacritic: "set (stripDiacritic D s) \<subseteq> set s"
  by (induction D s rule: stripDiacritic.induct) auto

lemma concat_codePoints: "concat (map fst (codePoints s)) = s"
  by (induction s rule: codePoints.induct) simp_all

lemma stripDiacritic_codePoints: "stripDiacritic D s = withoutDiacritics D s"
  unfolding withoutDiacritics_def
  by (induction D s rule: stripDiacritic.induct) simp_all

lemma codePoints_units:
  "\<forall>c\<in>set s. \<not> isLead c \<Longrightarrow> codePoints s = map (\<lambda>c. ([c], unat c)) s"
  by (induction s rule: codePoints.induct) simp_all

lemma withoutDiacritics_units:
  assumes "\<forall>c\<in>set s. \<not> isLead c"
  shows "withoutDiacritics D s = filter (\<lambda>c. \<not> D (unat c)) s"
proof -
  have "concat (map fst (filter (\<lambda>p. \<not> D (snd p)) (map (\<lambda>c. ([c], unat c)) t))) =
      filter (\<lambda>c. \<not> D (unat c)) t" for t :: jsstring
    by (induction t) simp_all
  then show ?thesis
    unfolding withoutDiacritics_def codePoints_units [OF assms] .
qed

lemma noDoubleHyphen_Cons: "c \<noteq> hyphen \<Longrightarrow> noDoubleHyphen (c # r) = noDoubleHyphen r"
  by (cases r) simp_all

lemma noDoubleHyphen_word:
  "\<forall>c\<in>set w. is_az09 c \<Longrightarrow> noDoubleHyphen (w @ r) = noDoubleHyphen r"
proof (induction w)
  case Nil
  show ?case by simp
next
  case (Cons c w)
  then have "c \<noteq> hyphen" by auto
  with Cons show ?case by (simp add: noDoubleHyphen_Cons)
qed

lemma noDoubleHyphen_join:
  assumes "\<forall>w\<in>set ws. w \<noteq> [] \<and> (\<forall>c\<in>set w. is_az09 c)"
  shows "noDoubleHyphen (join [hyphen] ws)"
  using assms
proof (induction "[hyphen]" ws rule: join.induct)
  case 1
  show ?case by simp
next
  case (2 x)
  then have "noDoubleHyphen (x @ []) = noDoubleHyphen []"
    by (intro noDoubleHyphen_word) simp
  then show ?case by simp
next
  case (3 x y ys)
  let ?j = "join [hyphen] (y # ys)"
  from "3.prems" have ys: "\<forall>w\<in>set (y # ys). w \<noteq> [] \<and> (\<forall>c\<in>set w. is_az09 c)"
    by simp
  from join_words_ends [OF _ ys] have j: "?j \<noteq> []" "is_az09 (hd ?j)"
    by simp_all
  then obtain d ds where d: "?j = d # ds"
    by (cases ?j) auto
  with j have dh: "d \<noteq> hyphen" by auto
  have "noDoubleHyphen ?j" using 3 ys by blast
  then have "noDoubleHyphen (hyphen # ?j)"
    unfolding d using dh by simp
  moreover have "noDoubleHyphen (x @ hyphen # ?j) = noDoubleHyphen (hyphen # ?j)"
    using "3.prems" by (intro noDoubleHyphen_word) simp
  ultimately show ?case by simp
qed

lemma set_join_words:
  assumes "\<forall>w\<in>set ws. \<forall>c\<in>set w. is_az09 c"
  shows "\<forall>c\<in>set (join [hyphen] ws). is_az09 c \<or> c = hyphen"
  using assms by (induction "[hyphen]" ws rule: join.induct) auto

lemma slugify_words:
  "slugify U s = join [hyphen] (alnumWords (stripDiacritic (Diacritic U)
       (normalizeNFD U (toLowerCase U (if s = [] then js ''ndgroup'' else s)))))"
  by (simp only: slugify_def trimHyphen_replaceRuns)

lemma is_az09_js [simp]:
  "is_az09 0x61" "is_az09 0x64" "is_az09 0x67" "is_az09 0x68" "is_az09 0x69" "is_az09 0x6B"
  "is_az09 0x6D" "is_az09 0x6E" "is_az09 0x6F" "is_az09 0x70" "is_az09 0x72" "is_az09 0x75"
  "\<not> is_az09 0x20" "\<not> is_az09 0x21" "\<not> is_az09 0x2D"
  by (simp_all add: is_az09_def)

lemma slugify_examples:
  assumes "unicodeOfExamples U"
  shows "slugify U nhaGiaKim = js ''nha-gia-kim''" and "slugify U [] = js ''ndgroup''"
proof -
  from assms have lo: "toLowerCase U nhaGiaKim = nhaGiaKimLower"
    and nf: "normalizeNFD U nhaGiaKimLower = nhaGiaKimNFD"
    and lo': "toLowerCase U (js ''ndgroup'') = js ''ndgroup''"
    and nf': "normalizeNFD U (js ''ndgroup'') = js ''ndgroup''"
    and d: "Diacritic U 0x300" "Diacritic U 0x309"
    and nd: "\<forall>c\<in>set (js ''abcdefghijklmnopqrstuvwxyz ''). \<not> Diacritic U (unat c)"
    unfolding unicodeOfExamples_def by blast+
  from nd have nd': "\<not> Diacritic U 0x61" "\<not> Diacritic U 0x64" "\<not> Diacritic U 0x67"
    "\<not> Diacritic U 0x68" "\<not> Diacritic U 0x69" "\<not> Diacritic U 0x6B" "\<not> Diacritic U 0x6D"
    "\<not> Diacritic U 0x6E" "\<not> Diacritic U 0x6F" "\<not> Diacritic U 0x70" "\<not> Diacritic U 0x72"
    "\<not> Diacritic U 0x75" "\<not> Diacritic U 0x20"
    by (simp_all add: js_def)
  have s1: "stripDiacritic (Diacritic U) nhaGiaKimNFD = js ''nha gia kim''"
    using d nd' by (simp add: nhaGiaKimNFD_def js_def isLead_def)
  have s2: "stripDiacritic (Diacritic U) (js ''ndgroup'') = js ''ndgroup''"
    using nd' by (simp add: js_def isLead_def)
  have "nhaGiaKim \<noteq> []" by (simp add: nhaGiaKim_def)
  then show "slugify U nhaGiaKim = js ''nha-gia-kim''"
    unfolding slugify_def by (simp add: lo nf s1) (simp add: js_def trimHyphen_def hyphen_def)
  show "slugify U [] = js ''ndgroup''"
    unfolding slugify_def by (simp add: lo' nf' s2) (simp add: js_def trimHyphen_def hyphen_def)
qed

lemma sampleUnicode_ok: "unicodeOfExamples sampleUnicode"
  by (simp add: unicodeOfExamples_def sampleUnicode_def nhaGiaKim_def nhaGiaKimLower_def
      nhaGiaKimNFD_def js_def)

lemma concat_alnumWords: "concat (alnumWords t) = filter is_az09 t"
proof (induction t rule: alnumWords.induct)
  case 1
  show ?case by simp
next
  case (2 c cs)
  show ?case
  proof (cases "is_az09 c")
    case True
    have f: "filter is_az09 (takeWhile is_az09 cs) = takeWhile is_az09 cs"
      by (rule filter_True) (auto dest: set_takeWhileD)
    have "filter is_az09 cs = filter is_az09 (takeWhile is_az09 cs @ dropWhile is_az09 cs)"
      by simp
    also have "\<dots> = takeWhile is_az09 cs @ filter is_az09 (dropWhile is_az09 cs)"
      by (simp only: filter_append f)
    finally show ?thesis
      using True "2.IH"(1) [OF True] by simp
  next
    case False
    then show ?thesis using "2.IH"(2) [OF False] by simp
  qed
qed

lemma replaceRuns_no_alnum:
  assumes "\<forall>c\<in>set t. \<not> is_az09 c"
  shows "trimHyphen (replaceRuns t) = []"
proof -
  from assms have "alnumWords t = []"
    by (simp only: alnumWords_empty_iff)
  then show ?thesis
    by (simp add: trimHyphen_replaceRuns)
qed

subsection \<open>The CSV text\<close>

lemma doubled_eq: "doubleQuotes v = doubled v"
  by (induction v) (simp_all add: doubleQuotes_def)

lemma join_separated: "join sep xs = separated sep xs"
  by (induction sep xs rule: join.induct) simp_all

lemma scalarValues_BOM: "scalarValues (0xFEFF # s) = 0xFEFF # scalarValues s"
  by (cases s) (simp_all add: isLead_def isSurrogate_def)

lemma utf8_BOM: "utf8 0xFEFF = [0xEF, 0xBB, 0xBF]"
  by (simp add: utf8_def)

section \<open>The claims\<close>

text \<open>
  C6. For every outline generation whose request the service answers with a list of
  length \<open>N\<close>, the stored outline has \<open>N\<close> items with the indices \<open>0..N-1\<close> in the
  order of the answer, and the title, the focus and the actions of each item are those of
  the answer.
\<close>

theorem outline_indices_in_response_order:
  assumes "gate rv (ui w) = None"
    and "outlineAnswer svc (history w @ [outlineRequest rv (ui w)]) = Inr result"
  shows "map index (outline (ui (handleGenerateOutline rv svc w))) = map int [0..<length result]
       \<and> map title (outline (ui (handleGenerateOutline rv svc w))) = map title result
       \<and> map focus (outline (ui (handleGenerateOutline rv svc w))) = map focus result
       \<and> map actions (outline (ui (handleGenerateOutline rv svc w))) = map actions result
       \<and> error (ui (handleGenerateOutline rv svc w)) = None"
  unfolding outline_run(2) [OF assms(1)] assms(2)
  by (simp add: map_index_withIndex map_title_withIndex map_focus_withIndex
      map_actions_withIndex)

theorem outline_indices_in_response_order_witness:
  "gate WithKeys (ui readyWorld) = None
   \<and> outlineAnswer okService (history readyWorld @ [outlineRequest WithKeys (ui readyWorld)])
       = Inr sampleOutline
   \<and> map index (outline (ui (handleGenerateOutline WithKeys okService readyWorld))) = [0, 1]
   \<and> map title (outline (ui (handleGenerateOutline WithKeys okService readyWorld)))
       = [js ''Hook'', js ''Intro'']"
proof -
  have g: "gate WithKeys (ui readyWorld) = None"
    by (rule ready_gate)
  have a: "outlineAnswer okService (history readyWorld @ [outlineRequest WithKeys (ui readyWorld)])
      = Inr sampleOutline"
    by (simp add: okService_def)
  show ?thesis
    using g a outline_indices_in_response_order [OF g a]
    by (simp add: sampleOutline_def upt_rec)
qed

text \<open>
  C7. For every script generation, each script-block request carries as its target the
  quotient of duration times 1000 by the number of items of the outline it works on,
  rounded to the nearest integer; an outline with an item gets a request; for 240 minutes
  and 12 items the target is 20000.
\<close>

theorem script_block_target_is_rounded_share:
  assumes "gate rv (ui w) = None"
  shows "(\<forall>item t tg ov s.
            (GenerateScriptBlock item t tg ov, s) \<in> set (newCalls w (handleGenerateScript rv svc w)) \<longrightarrow>
            tg = Some (round (rat_of_int (durationMin (ui w) * 1000) /
                        rat_of_nat (length (outline (ui (handleGenerateScript rv svc w)))))))
       \<and> (outline (ui (handleGenerateScript rv svc w)) \<noteq> [] \<longrightarrow>
            (\<exists>item t tg ov s.
               (GenerateScriptBlock item t tg ov, s) \<in> set (newCalls w (handleGenerateScript rv svc w))))
       \<and> (outline (ui w) \<noteq> [] \<longrightarrow>
            outline (ui (handleGenerateScript rv svc w)) = outline (ui w))
       \<and> charsPerBlock (240 * 1000) 12 = Some 20000"
proof -
  let ?w' = "handleGenerateScript rv svc w"
  have run: "\<And>items s pre txts. scriptRun rv svc w items s pre txts \<Longrightarrow>
      totalCharsTarget s = durationMin (ui w) * 1000 \<Longrightarrow>
      (\<forall>rq s'. (rq, s') \<in> set pre \<longrightarrow> (\<forall>item t tg ov. rq \<noteq> GenerateScriptBlock item t tg ov)) \<Longrightarrow>
      outline s = items \<Longrightarrow>
      (\<forall>item t tg ov s'.
            (GenerateScriptBlock item t tg ov, s') \<in> set (newCalls w ?w') \<longrightarrow>
            tg = Some (round (rat_of_int (durationMin (ui w) * 1000) /
                        rat_of_nat (length (outline (ui ?w'))))))
       \<and> (outline (ui ?w') \<noteq> [] \<longrightarrow>
            (\<exists>item t tg ov s'. (GenerateScriptBlock item t tg ov, s') \<in> set (newCalls w ?w')))
       \<and> outline (ui ?w') = items"
  proof -
    fix items s pre txts
    assume r: "scriptRun rv svc w items s pre txts"
      and tt: "totalCharsTarget s = durationMin (ui w) * 1000"
      and pre: "\<forall>rq s'. (rq, s') \<in> set pre \<longrightarrow> (\<forall>item t tg ov. rq \<noteq> GenerateScriptBlock item t tg ov)"
      and ol: "outline s = items"
    let ?tg = "charsPerBlock (durationMin (ui w) * 1000) (length items)"
    let ?m = "if length txts = length items then length txts else Suc (length txts)"
    from r have len: "length txts \<le> length items"
      and nc: "newCalls w ?w' = pre @ loopTrace (bookTitle s) ?tg (overrideOf rv s) items s txts ?m"
      and ex: "\<exists>err. ui ?w' = s\<lparr>scriptBlocks := map2 newBlock items txts,
            loading := withKey Script False (loading s), error := err\<rparr>"
      unfolding scriptRun_def tt by blast+
    from ex ol have ol': "outline (ui ?w') = items" by auto
    have a: "tg = Some (round (rat_of_int (durationMin (ui w) * 1000) / rat_of_nat (length items)))"
      if "(GenerateScriptBlock item t tg ov, s') \<in> set (newCalls w ?w')" for item t tg ov s'
    proof -
      from that pre have "(GenerateScriptBlock item t tg ov, s') \<in>
          set (loopTrace (bookTitle s) ?tg (overrideOf rv s) items s txts ?m)"
        unfolding nc by auto
      from loopTrace_requests [OF this] obtain i where "i < ?m" and "tg = ?tg"
        by auto
      with len have "0 < length items"
        by (auto split: if_splits)
      with \<open>tg = ?tg\<close> show ?thesis
        by (simp add: charsPerBlock_def)
    qed
    have b: "\<exists>item t tg ov s'. (GenerateScriptBlock item t tg ov, s') \<in> set (newCalls w ?w')"
      if "items \<noteq> []"
    proof -
      from that len have "0 < ?m" by auto
      from loopTrace_first [OF this] show ?thesis
        unfolding nc by (metis Un_iff set_append)
    qed
    show "(\<forall>item t tg ov s'.
            (GenerateScriptBlock item t tg ov, s') \<in> set (newCalls w ?w') \<longrightarrow>
            tg = Some (round (rat_of_int (durationMin (ui w) * 1000) /
                        rat_of_nat (length (outline (ui ?w'))))))
       \<and> (outline (ui ?w') \<noteq> [] \<longrightarrow>
            (\<exists>item t tg ov s'. (GenerateScriptBlock item t tg ov, s') \<in> set (newCalls w ?w')))
       \<and> outline (ui ?w') = items"
      unfolding ol' using a b by blast
  qed
  have c: "charsPerBlock (240 * 1000) 12 = Some 20000"
    by (simp add: charsPerBlock_div)
  from assms show ?thesis
  proof (cases rule: script_cases [where svc = svc])
    case (stored txts)
    have "(\<forall>item t tg ov s'.
            (GenerateScriptBlock item t tg ov, s') \<in> set (newCalls w ?w') \<longrightarrow>
            tg = Some (round (rat_of_int (durationMin (ui w) * 1000) /
                        rat_of_nat (length (outline (ui ?w'))))))
       \<and> (outline (ui ?w') \<noteq> [] \<longrightarrow>
            (\<exists>item t tg ov s'. (GenerateScriptBlock item t tg ov, s') \<in> set (newCalls w ?w')))
       \<and> outline (ui ?w') = outline (ui w)"
      by (rule run [OF stored(2)]) (simp_all add: entered_def totalCharsTarget_def)
    with c show ?thesis
      by blast
  next
    case (failed e)
    have "outline (ui ?w') = []" "newCalls w ?w' = [(outlineRequest rv (ui w), (entered Script (ui w))\<lparr>scriptBlocks := []\<rparr>)]"
      using failed by simp_all
    then show ?thesis
      using c failed(1) by (simp add: outlineRequest_def)
  next
    case (generated generated txts)
    have "(\<forall>item t tg ov s'.
            (GenerateScriptBlock item t tg ov, s') \<in> set (newCalls w ?w') \<longrightarrow>
            tg = Some (round (rat_of_int (durationMin (ui w) * 1000) /
                        rat_of_nat (length (outline (ui ?w'))))))
       \<and> (outline (ui ?w') \<noteq> [] \<longrightarrow>
            (\<exists>item t tg ov s'. (GenerateScriptBlock item t tg ov, s') \<in> set (newCalls w ?w')))
       \<and> outline (ui ?w') = withIndex generated"
      by (rule run [OF generated(3)])
        (simp_all add: entered_def totalCharsTarget_def outlineRequest_def)
    moreover have "outline (ui w) \<noteq> [] \<longrightarrow> outline (ui ?w') = outline (ui w)"
      using generated(1) by simp
    ultimately show ?thesis
      using c by blast
  qed
qed

theorem script_block_target_is_rounded_share_witness:
  "gate WithKeys (ui readyWorld) = None
   \<and> (\<exists>item t ov s. (GenerateScriptBlock item t (Some 120000) ov, s)
          \<in> set (newCalls readyWorld (handleGenerateScript WithKeys okService readyWorld)))"
proof -
  let ?w' = "handleGenerateScript WithKeys okService readyWorld"
  have g: "gate WithKeys (ui readyWorld) = None"
    by (rule ready_gate)
  note T = script_block_target_is_rounded_share [OF g, of okService]
  have ol: "outline (ui ?w') = withIndex sampleOutline"
    by (simp add: model_defs sample_defs upt_rec)
  then have "outline (ui ?w') \<noteq> []"
    by (simp add: withIndex_def sampleOutline_def)
  with T obtain item t tg ov s
    where m: "(GenerateScriptBlock item t tg ov, s) \<in> set (newCalls readyWorld ?w')"
    by blast
  with T have "tg = Some (round (rat_of_int (durationMin (ui readyWorld) * 1000) /
      rat_of_nat (length (outline (ui ?w')))))"
    by blast
  then have "tg = Some 120000"
    unfolding ol by (simp add: round_quotient sample_defs)
  with m g show ?thesis by blast
qed

text \<open>
  C5. In every state the component reaches, and in every state in which it made a call,
  the count of every script block in the result list is the length of the block's text.
\<close>

theorem chars_is_length_of_text:
  "(\<forall>b\<in>set (scriptBlocks (ui (run rv acts initialWorld))). sb_chars b = int (length (sb_text b)))
   \<and> (\<forall>(rq, s)\<in>set (calls (run rv acts initialWorld)).
        \<forall>b\<in>set (scriptBlocks s). sb_chars b = int (length (sb_text b)))"
  using run_blocksExact [OF initial_blocksExact, of rv acts]
  unfolding blocksExact_def charsExact_def .

theorem chars_is_length_of_text_witness:
  "scriptBlocks (ui (run WithKeys scriptSession initialWorld)) \<noteq> []
   \<and> sb_text (hd (scriptBlocks (ui (run WithKeys scriptSession initialWorld)))) = js ''Once''
   \<and> sb_chars (hd (scriptBlocks (ui (run WithKeys scriptSession initialWorld)))) = 4"
proof -
  let ?bs = "scriptBlocks (ui (run WithKeys scriptSession initialWorld))"
  have bs: "map sb_text ?bs = [js ''Once'', js ''Once'']"
    by (simp add: scriptSession_def initialWorld_def model_defs sample_defs upt_rec)
  then have ne: "?bs \<noteq> []" by auto
  then have "hd ?bs \<in> set ?bs" by simp
  with chars_is_length_of_text [of WithKeys scriptSession]
  have "sb_chars (hd ?bs) = int (length (sb_text (hd ?bs)))" by blast
  moreover from bs ne have "sb_text (hd ?bs) = js ''Once''"
    by (cases ?bs) simp_all
  ultimately show ?thesis
    using ne by (simp add: js_def)
qed

text \<open>
  The run of a script generation whose outline request was answered.
\<close>

lemma script_generation_answered:
  assumes g: "gate rv (ui w) = None"
    and emp: "outline (ui w) = []"
    and ans: "outlineAnswer svc (history w @ [outlineRequest rv (ui w)]) = Inr generated"
  shows "(\<exists>s0. hd (newCalls w (handleGenerateScript rv svc w)) = (outlineRequest rv (ui w), s0)
              \<and> scriptBlocks s0 = [] \<and> outline s0 = [])
       \<and> newCalls w (handleGenerateScript rv svc w) \<noteq> []
       \<and> outline (ui (handleGenerateScript rv svc w)) = withIndex generated
       \<and> (\<forall>i<length (tl (newCalls w (handleGenerateScript rv svc w))).
             fst (tl (newCalls w (handleGenerateScript rv svc w)) ! i) =
               GenerateScriptBlock (outline (ui (handleGenerateScript rv svc w)) ! i)
                 (bookTitle (ui w))
                 (charsPerBlock (totalCharsTarget (ui w)) (length generated))
                 (overrideOf rv (ui w))
           \<and> i < length (outline (ui (handleGenerateScript rv svc w)))
           \<and> outline (snd (tl (newCalls w (handleGenerateScript rv svc w)) ! i)) =
               outline (ui (handleGenerateScript rv svc w))
           \<and> scriptBlocks (snd (tl (newCalls w (handleGenerateScript rv svc w)) ! i)) =
               take i (scriptBlocks (ui (handleGenerateScript rv svc w))))
       \<and> (\<forall>i<length (scriptBlocks (ui (handleGenerateScript rv svc w))).
             sb_index (scriptBlocks (ui (handleGenerateScript rv svc w)) ! i) = int i + 1
           \<and> sb_chapter (scriptBlocks (ui (handleGenerateScript rv svc w)) ! i) =
               title (outline (ui (handleGenerateScript rv svc w)) ! i)
           \<and> scriptBlockAnswer svc
               (history w @ map fst (take (i + 2) (newCalls w (handleGenerateScript rv svc w)))) =
               Inr (sb_text (scriptBlocks (ui (handleGenerateScript rv svc w)) ! i)))
       \<and> length (tl (newCalls w (handleGenerateScript rv svc w))) =
           (if error (ui (handleGenerateScript rv svc w)) = None
            then length (scriptBlocks (ui (handleGenerateScript rv svc w)))
            else length (scriptBlocks (ui (handleGenerateScript rv svc w))) + 1)
       \<and> length (scriptBlocks (ui (handleGenerateScript rv svc w)))
           \<le> length (outline (ui (handleGenerateScript rv svc w)))
       \<and> (error (ui (handleGenerateScript rv svc w)) = None \<longrightarrow>
             length (scriptBlocks (ui (handleGenerateScript rv svc w))) =
               length (outline (ui (handleGenerateScript rv svc w)))
           \<and> map sb_index (scriptBlocks (ui (handleGenerateScript rv svc w))) =
               map (\<lambda>i. int i + 1) [0..<length generated])
       \<and> (error (ui (handleGenerateScript rv svc w)) \<noteq> None \<longrightarrow>
             length (scriptBlocks (ui (handleGenerateScript rv svc w)))
               < length (outline (ui (handleGenerateScript rv svc w)))
           \<and> (\<exists>e. scriptBlockAnswer svc
                   (history w @ map fst (newCalls w (handleGenerateScript rv svc w))) = Inl e
                 \<and> error (ui (handleGenerateScript rv svc w)) = Some (errorMessage Script e)))"
proof -
  let ?w' = "handleGenerateScript rv svc w"
  let ?items = "withIndex generated"
  let ?s1 = "(entered Script (ui w))\<lparr>scriptBlocks := []\<rparr>"
  let ?s2 = "(entered Script (ui w))\<lparr>scriptBlocks := [], outline := ?items\<rparr>"
  let ?t = "bookTitle (ui w)"
  let ?tg = "charsPerBlock (totalCharsTarget (ui w)) (length generated)"
  let ?ov = "overrideOf rv (ui w)"
  from script_generated [OF g emp ans] obtain txts
    where run: "scriptRun rv svc w ?items ?s2 [(outlineRequest rv (ui w), ?s1)] txts" ..
  define m where "m = (if length txts = length generated then length txts else Suc (length txts))"
  have s2: "bookTitle ?s2 = ?t" "totalCharsTarget ?s2 = totalCharsTarget (ui w)"
    "overrideOf rv ?s2 = ?ov" "length ?items = length generated"
    by (simp_all add: entered_def totalCharsTarget_def)
  note run' = run [unfolded scriptRun_def s2, folded m_def]
  have len: "length txts \<le> length generated"
    using run' by blast
  have nc: "newCalls w ?w' = (outlineRequest rv (ui w), ?s1) # loopTrace ?t ?tg ?ov ?items ?s2 txts m"
    using run' by simp
  obtain err where err: "err = None \<longleftrightarrow> length txts = length generated"
    and ui': "ui ?w' = ?s2\<lparr>scriptBlocks := map2 newBlock ?items txts,
            loading := withKey Script False (loading ?s2), error := err\<rparr>"
    using run' by blast
  have an: "\<forall>i<length txts. scriptBlockAnswer svc
          (history w @ map fst [(outlineRequest rv (ui w), ?s1)] @
           map fst (loopTrace ?t ?tg ?ov ?items ?s2 txts (Suc i))) = Inr (txts ! i)"
    using run' by blast
  have m: "m \<le> length generated" "length txts \<le> m"
    using len by (auto simp: m_def)
  have ol: "outline (ui ?w') = ?items"
    by (simp add: ui')
  have sb: "scriptBlocks (ui ?w') = map2 newBlock ?items txts"
    by (simp add: ui')
  have lsb: "length (scriptBlocks (ui ?w')) = length txts"
    unfolding sb using len by simp
  have er: "error (ui ?w') = None \<longleftrightarrow> length txts = length generated"
    using err by (simp add: ui')
  have 1: "\<exists>s0. hd (newCalls w ?w') = (outlineRequest rv (ui w), s0)
              \<and> scriptBlocks s0 = [] \<and> outline s0 = []"
    unfolding nc using emp by (simp add: entered_def)
  have 2: "newCalls w ?w' \<noteq> []"
    unfolding nc by simp
  have 4: "\<forall>i<length (tl (newCalls w ?w')).
             fst (tl (newCalls w ?w') ! i) =
               GenerateScriptBlock (outline (ui ?w') ! i) ?t ?tg ?ov
           \<and> i < length (outline (ui ?w'))
           \<and> outline (snd (tl (newCalls w ?w') ! i)) = outline (ui ?w')
           \<and> scriptBlocks (snd (tl (newCalls w ?w') ! i)) = take i (scriptBlocks (ui ?w'))"
    unfolding nc ol sb using m by (simp add: nth_loopTrace map2_take)
  have 5: "\<forall>i<length (scriptBlocks (ui ?w')).
             sb_index (scriptBlocks (ui ?w') ! i) = int i + 1
           \<and> sb_chapter (scriptBlocks (ui ?w') ! i) = title (outline (ui ?w') ! i)
           \<and> scriptBlockAnswer svc (history w @ map fst (take (i + 2) (newCalls w ?w'))) =
               Inr (sb_text (scriptBlocks (ui ?w') ! i))"
  proof (intro allI impI)
    fix i assume "i < length (scriptBlocks (ui ?w'))"
    then have i: "i < length txts" by (simp add: lsb)
    with len have ig: "i < length generated" by simp
    from i m have "Suc i \<le> m" by simp
    then have tk: "take (i + 2) (newCalls w ?w') =
        (outlineRequest rv (ui w), ?s1) # loopTrace ?t ?tg ?ov ?items ?s2 txts (Suc i)"
      unfolding nc by (simp add: take_loopTrace)
    have nb: "scriptBlocks (ui ?w') ! i = newBlock (?items ! i) (txts ! i)"
      unfolding sb using i len by simp
    show "sb_index (scriptBlocks (ui ?w') ! i) = int i + 1
           \<and> sb_chapter (scriptBlocks (ui ?w') ! i) = title (outline (ui ?w') ! i)
           \<and> scriptBlockAnswer svc (history w @ map fst (take (i + 2) (newCalls w ?w'))) =
               Inr (sb_text (scriptBlocks (ui ?w') ! i))"
      unfolding nb ol tk using an i ig
      by (simp add: newBlock_def nth_withIndex)
  qed
  have 6: "length (tl (newCalls w ?w')) =
           (if error (ui ?w') = None then length (scriptBlocks (ui ?w'))
            else length (scriptBlocks (ui ?w')) + 1)"
    unfolding nc lsb er by (simp add: m_def)
  have 7: "length (scriptBlocks (ui ?w')) \<le> length (outline (ui ?w'))"
    unfolding lsb ol using len by simp
  have 8: "error (ui ?w') = None \<longrightarrow>
             length (scriptBlocks (ui ?w')) = length (outline (ui ?w'))
           \<and> map sb_index (scriptBlocks (ui ?w')) = map (\<lambda>i. int i + 1) [0..<length generated]"
  proof
    assume "error (ui ?w') = None"
    then have eq: "length txts = length generated" by (simp add: er)
    have "map sb_index (scriptBlocks (ui ?w')) = map (\<lambda>i. int i + 1) [0..<length generated]"
    proof (rule nth_equalityI)
      show "length (map sb_index (scriptBlocks (ui ?w'))) =
          length (map (\<lambda>i. int i + 1) [0..<length generated])"
        by (simp add: lsb eq)
    next
      fix i assume "i < length (map sb_index (scriptBlocks (ui ?w')))"
      then have "i < length (scriptBlocks (ui ?w'))" by simp
      with 5 lsb eq show "map sb_index (scriptBlocks (ui ?w')) ! i =
          map (\<lambda>i. int i + 1) [0..<length generated] ! i"
        by simp
    qed
    with eq show "length (scriptBlocks (ui ?w')) = length (outline (ui ?w'))
           \<and> map sb_index (scriptBlocks (ui ?w')) = map (\<lambda>i. int i + 1) [0..<length generated]"
      by (simp add: lsb ol)
  qed
  have 9: "error (ui ?w') \<noteq> None \<longrightarrow>
             length (scriptBlocks (ui ?w')) < length (outline (ui ?w'))
           \<and> (\<exists>e. scriptBlockAnswer svc (history w @ map fst (newCalls w ?w')) = Inl e
                 \<and> error (ui ?w') = Some (errorMessage Script e))"
  proof
    assume f: "error (ui ?w') \<noteq> None"
    from scriptRun_partial [OF run f]
    show "length (scriptBlocks (ui ?w')) < length (outline (ui ?w'))
           \<and> (\<exists>e. scriptBlockAnswer svc (history w @ map fst (newCalls w ?w')) = Inl e
                 \<and> error (ui ?w') = Some (errorMessage Script e))"
      unfolding ol by blast
  qed
  from 1 2 ol 4 5 6 7 8 9 show ?thesis
    by (intro conjI)
qed


text \<open>
  C2, as amended. A script generation that starts with no stored outline first asks for an
  outline, in a state with no block. If that request is rejected, nothing else is asked
  for: no outline is stored, there is no block, and the error is set. Otherwise the
  indexed answer is stored, and the blocks of the outline items are asked for in their
  order, one request at a time: request \<open>i\<close> is for item \<open>i\<close> and is made when the
  outline is stored and exactly the blocks of the \<open>i\<close> items before it are in the list.
  Block \<open>i\<close> has index \<open>i + 1\<close>, the title of item \<open>i\<close> and the text returned for
  it. If no request is rejected, the generation ends without error, with as many blocks
  as the outline has items and the indices \<open>1..N\<close>. If a request is rejected, it is the
  last one: the generation ends with the error set to the message of that rejection and
  with the blocks completed before it, fewer than the items.
\<close>

theorem script_generation_from_empty_outline:
  assumes g: "gate rv (ui w) = None"
    and emp: "outline (ui w) = []"
  shows "(\<exists>s0. hd (newCalls w (handleGenerateScript rv svc w)) = (outlineRequest rv (ui w), s0)
              \<and> scriptBlocks s0 = [] \<and> outline s0 = [])
       \<and> newCalls w (handleGenerateScript rv svc w) \<noteq> []
       \<and> (\<forall>e. outlineAnswer svc (history w @ [outlineRequest rv (ui w)]) = Inl e \<longrightarrow>
             length (newCalls w (handleGenerateScript rv svc w)) = 1
           \<and> outline (ui (handleGenerateScript rv svc w)) = []
           \<and> scriptBlocks (ui (handleGenerateScript rv svc w)) = []
           \<and> error (ui (handleGenerateScript rv svc w)) = Some (errorMessage Script e))
       \<and> (\<forall>generated. outlineAnswer svc (history w @ [outlineRequest rv (ui w)]) = Inr generated \<longrightarrow>
             outline (ui (handleGenerateScript rv svc w)) = withIndex generated
             \<and> (\<forall>i<length (tl (newCalls w (handleGenerateScript rv svc w))).
                   fst (tl (newCalls w (handleGenerateScript rv svc w)) ! i) =
                     GenerateScriptBlock (outline (ui (handleGenerateScript rv svc w)) ! i)
                       (bookTitle (ui w))
                       (charsPerBlock (totalCharsTarget (ui w)) (length generated))
                       (overrideOf rv (ui w))
                 \<and> i < length (outline (ui (handleGenerateScript rv svc w)))
                 \<and> outline (snd (tl (newCalls w (handleGenerateScript rv svc w)) ! i)) =
                     outline (ui (handleGenerateScript rv svc w))
                 \<and> scriptBlocks (snd (tl (newCalls w (handleGenerateScript rv svc w)) ! i)) =
                     take i (scriptBlocks (ui (handleGenerateScript rv svc w))))
             \<and> (\<forall>i<length (scriptBlocks (ui (handleGenerateScript rv svc w))).
                   sb_index (scriptBlocks (ui (handleGenerateScript rv svc w)) ! i) = int i + 1
                 \<and> sb_chapter (scriptBlocks (ui (handleGenerateScript rv svc w)) ! i) =
                     title (outline (ui (handleGenerateScript rv svc w)) ! i)
                 \<and> scriptBlockAnswer svc
                     (history w @ map fst (take (i + 2) (newCalls w (handleGenerateScript rv svc w)))) =
                     Inr (sb_text (scriptBlocks (ui (handleGenerateScript rv svc w)) ! i)))
             \<and> length (tl (newCalls w (handleGenerateScript rv svc w))) =
                 (if error (ui (handleGenerateScript rv svc w)) = None
                  then length (scriptBlocks (ui (handleGenerateScript rv svc w)))
                  else length (scriptBlocks (ui (handleGenerateScript rv svc w))) + 1)
             \<and> length (scriptBlocks (ui (handleGenerateScript rv svc w)))
                 \<le> length (outline (ui (handleGenerateScript rv svc w)))
             \<and> (error (ui (handleGenerateScript rv svc w)) = None \<longrightarrow>
                   length (scriptBlocks (ui (handleGenerateScript rv svc w))) =
                     length (outline (ui (handleGenerateScript rv svc w)))
                 \<and> map sb_index (scriptBlocks (ui (handleGenerateScript rv svc w))) =
                     map (\<lambda>i. int i + 1) [0..<length generated])
             \<and> (error (ui (handleGenerateScript rv svc w)) \<noteq> None \<longrightarrow>
                   length (scriptBlocks (ui (handleGenerateScript rv svc w)))
                     < length (outline (ui (handleGenerateScript rv svc w)))
                 \<and> (\<exists>e. scriptBlockAnswer svc
                         (history w @ map fst (newCalls w (handleGenerateScript rv svc w))) = Inl e
                       \<and> error (ui (handleGenerateScript rv svc w)) = Some (errorMessage Script e))))"
proof -
  let ?w' = "handleGenerateScript rv svc w"
  let ?s1 = "(entered Script (ui w))\<lparr>scriptBlocks := []\<rparr>"
  have hd: "newCalls w ?w' \<noteq> [] \<and> hd (newCalls w ?w') = (outlineRequest rv (ui w), ?s1)"
  proof (cases "outlineAnswer svc (history w @ [outlineRequest rv (ui w)])")
    case (Inl e)
    from script_outline_failed [OF g emp Inl]
    have "newCalls w ?w' = [(outlineRequest rv (ui w), ?s1)]"
      by (rule conjunct1)
    then show ?thesis by simp
  next
    case (Inr generated)
    from script_generated [OF g emp Inr] obtain txts
      where "scriptRun rv svc w (withIndex generated) (?s1\<lparr>outline := withIndex generated\<rparr>)
               [(outlineRequest rv (ui w), ?s1)] txts" ..
    then have "\<exists>tr. newCalls w ?w' = [(outlineRequest rv (ui w), ?s1)] @ tr"
      unfolding scriptRun_def by blast
    then show ?thesis by auto
  qed
  have 1: "(\<exists>s0. hd (newCalls w (?w')) = (outlineRequest rv (ui w), s0) \<and> scriptBlocks s0 = [] \<and> outline s0 = [])"
    using hd emp by (simp add: entered_def)
  have 2: "newCalls w ?w' \<noteq> []"
    using hd by simp
  have 3: "\<forall>e. outlineAnswer svc (history w @ [outlineRequest rv (ui w)]) = Inl e \<longrightarrow>
             length (newCalls w ?w') = 1
           \<and> outline (ui ?w') = []
           \<and> scriptBlocks (ui ?w') = []
           \<and> error (ui ?w') = Some (errorMessage Script e)"
  proof (intro allI impI)
    fix e assume a: "outlineAnswer svc (history w @ [outlineRequest rv (ui w)]) = Inl e"
    from script_outline_failed [OF g emp a]
    have nc: "newCalls w ?w' = [(outlineRequest rv (ui w), ?s1)]"
      and u: "ui ?w' = (ui w)\<lparr>scriptBlocks := [],
                loading := withKey Script False (loading (ui w)),
                error := Some (errorMessage Script e)\<rparr>"
      by (rule conjunct1, rule conjunct2)
    show "length (newCalls w ?w') = 1
           \<and> outline (ui ?w') = []
           \<and> scriptBlocks (ui ?w') = []
           \<and> error (ui ?w') = Some (errorMessage Script e)"
      unfolding nc u using emp by simp
  qed
  have 4: "\<forall>generated. outlineAnswer svc (history w @ [outlineRequest rv (ui w)]) = Inr generated \<longrightarrow>
             outline (ui (handleGenerateScript rv svc w)) = withIndex generated
             \<and> (\<forall>i<length (tl (newCalls w (handleGenerateScript rv svc w))).
                   fst (tl (newCalls w (handleGenerateScript rv svc w)) ! i) =
                     GenerateScriptBlock (outline (ui (handleGenerateScript rv svc w)) ! i)
                       (bookTitle (ui w))
                       (charsPerBlock (totalCharsTarget (ui w)) (length generated))
                       (overrideOf rv (ui w))
                 \<and> i < length (outline (ui (handleGenerateScript rv svc w)))
                 \<and> outline (snd (tl (newCalls w (handleGenerateScript rv svc w)) ! i)) =
                     outline (ui (handleGenerateScript rv svc w))
                 \<and> scriptBlocks (snd (tl (newCalls w (handleGenerateScript rv svc w)) ! i)) =
                     take i (scriptBlocks (ui (handleGenerateScript rv svc w))))
             \<and> (\<forall>i<length (scriptBlocks (ui (handleGenerateScript rv svc w))).
                   sb_index (scriptBlocks (ui (handleGenerateScript rv svc w)) ! i) = int i + 1
                 \<and> sb_chapter (scriptBlocks (ui (handleGenerateScript rv svc w)) ! i) =
                     title (outline (ui (handleGenerateScript rv svc w)) ! i)
                 \<and> scriptBlockAnswer svc
                     (history w @ map fst (take (i + 2) (newCalls w (handleGenerateScript rv svc w)))) =
                     Inr (sb_text (scriptBlocks (ui (handleGenerateScript rv svc w)) ! i)))
             \<and> length (tl (newCalls w (handleGenerateScript rv svc w))) =
                 (if error (ui (handleGenerateScript rv svc w)) = None
                  then length (scriptBlocks (ui (handleGenerateScript rv svc w)))
                  else length (scriptBlocks (ui (handleGenerateScript rv svc w))) + 1)
             \<and> length (scriptBlocks (ui (handleGenerateScript rv svc w)))
                 \<le> length (outline (ui (handleGenerateScript rv svc w)))
             \<and> (error (ui (handleGenerateScript rv svc w)) = None \<longrightarrow>
                   length (scriptBlocks (ui (handleGenerateScript rv svc w))) =
                     length (outline (ui (handleGenerateScript rv svc w)))
                 \<and> map sb_index (scriptBlocks (ui (handleGenerateScript rv svc w))) =
                     map (\<lambda>i. int i + 1) [0..<length generated])
             \<and> (error (ui (handleGenerateScript rv svc w)) \<noteq> None \<longrightarrow>
                   length (scriptBlocks (ui (handleGenerateScript rv svc w)))
                     < length (outline (ui (handleGenerateScript rv svc w)))
                 \<and> (\<exists>e. scriptBlockAnswer svc
                         (history w @ map fst (newCalls w (handleGenerateScript rv svc w))) = Inl e
                       \<and> error (ui (handleGenerateScript rv svc w)) = Some (errorMessage Script e)))"
  proof (intro allI impI)
    fix generated assume a: "outlineAnswer svc (history w @ [outlineRequest rv (ui w)]) = Inr generated"
    from script_generation_answered [OF g emp a]
    show "outline (ui (handleGenerateScript rv svc w)) = withIndex generated
             \<and> (\<forall>i<length (tl (newCalls w (handleGenerateScript rv svc w))).
                   fst (tl (newCalls w (handleGenerateScript rv svc w)) ! i) =
                     GenerateScriptBlock (outline (ui (handleGenerateScript rv svc w)) ! i)
                       (bookTitle (ui w))
                       (charsPerBlock (totalCharsTarget (ui w)) (length generated))
                       (overrideOf rv (ui w))
                 \<and> i < length (outline (ui (handleGenerateScript rv svc w)))
                 \<and> outline (snd (tl (newCalls w (handleGenerateScript rv svc w)) ! i)) =
                     outline (ui (handleGenerateScript rv svc w))
                 \<and> scriptBlocks (snd (tl (newCalls w (handleGenerateScript rv svc w)) ! i)) =
                     take i (scriptBlocks (ui (handleGenerateScript rv svc w))))
             \<and> (\<forall>i<length (scriptBlocks (ui (handleGenerateScript rv svc w))).
                   sb_index (scriptBlocks (ui (handleGenerateScript rv svc w)) ! i) = int i + 1
                 \<and> sb_chapter (scriptBlocks (ui (handleGenerateScript rv svc w)) ! i) =
                     title (outline (ui (handleGenerateScript rv svc w)) ! i)
                 \<and> scriptBlockAnswer svc
                     (history w @ map fst (take (i + 2) (newCalls w (handleGenerateScript rv svc w)))) =
                     Inr (sb_text (scriptBlocks (ui (handleGenerateScript rv svc w)) ! i)))
             \<and> length (tl (newCalls w (handleGenerateScript rv svc w))) =
                 (if error (ui (handleGenerateScript rv svc w)) = None
                  then length (scriptBlocks (ui (handleGenerateScript rv svc w)))
                  else length (scriptBlocks (ui (handleGenerateScript rv svc w))) + 1)
             \<and> length (scriptBlocks (ui (handleGenerateScript rv svc w)))
                 \<le> length (outline (ui (handleGenerateScript rv svc w)))
             \<and> (error (ui (handleGenerateScript rv svc w)) = None \<longrightarrow>
                   length (scriptBlocks (ui (handleGenerateScript rv svc w))) =
                     length (outline (ui (handleGenerateScript rv svc w)))
                 \<and> map sb_index (scriptBlocks (ui (handleGenerateScript rv svc w))) =
                     map (\<lambda>i. int i + 1) [0..<length generated])
             \<and> (error (ui (handleGenerateScript rv svc w)) \<noteq> None \<longrightarrow>
                   length (scriptBlocks (ui (handleGenerateScript rv svc w)))
                     < length (outline (ui (handleGenerateScript rv svc w)))
                 \<and> (\<exists>e. scriptBlockAnswer svc
                         (history w @ map fst (newCalls w (handleGenerateScript rv svc w))) = Inl e
                       \<and> error (ui (handleGenerateScript rv svc w)) = Some (errorMessage Script e)))"
      by (rule conjunct2 [OF conjunct2])
  qed
  from 1 2 3 4 show ?thesis
    by (intro conjI)
qed

theorem failed_block_request_leaves_fewer_blocks:
  "gate WithKeys (ui readyWorld) = None
   \<and> outline (ui readyWorld) = []
   \<and> length (outline (ui (handleGenerateScript WithKeys blocksDown readyWorld))) = 2
   \<and> scriptBlocks (ui (handleGenerateScript WithKeys blocksDown readyWorld)) = []
   \<and> length (scriptBlocks (ui (handleGenerateScript WithKeys blocksDown readyWorld)))
       \<noteq> length (outline (ui (handleGenerateScript WithKeys blocksDown readyWorld)))
   \<and> length (outline (ui (handleGenerateScript WithKeys laterBlocksDown readyWorld))) = 2
   \<and> map sb_index (scriptBlocks (ui (handleGenerateScript WithKeys laterBlocksDown readyWorld)))
       = [1]"
  by (simp add: blocksDown_def laterBlocksDown_def model_defs sample_defs upt_rec)

theorem script_generation_from_empty_outline_witness:
  "gate WithKeys (ui readyWorld) = None
   \<and> outline (ui readyWorld) = []
   \<and> outlineAnswer okService (history readyWorld @ [outlineRequest WithKeys (ui readyWorld)])
       = Inr sampleOutline
   \<and> error (ui (handleGenerateScript WithKeys okService readyWorld)) = None
   \<and> map sb_index (scriptBlocks (ui (handleGenerateScript WithKeys okService readyWorld))) = [1, 2]
   \<and> length (tl (newCalls readyWorld (handleGenerateScript WithKeys okService readyWorld))) = 2
   \<and> outlineAnswer laterBlocksDown
         (history readyWorld @ [outlineRequest WithKeys (ui readyWorld)]) = Inr sampleOutline
   \<and> error (ui (handleGenerateScript WithKeys laterBlocksDown readyWorld))
       = Some (errorMessage Script (js ''503''))
   \<and> length (outline (ui (handleGenerateScript WithKeys laterBlocksDown readyWorld))) = 2
   \<and> length (scriptBlocks (ui (handleGenerateScript WithKeys laterBlocksDown readyWorld))) = 1
   \<and> length (tl (newCalls readyWorld (handleGenerateScript WithKeys laterBlocksDown readyWorld)))
       = 2"
proof -
  let ?w' = "handleGenerateScript WithKeys okService readyWorld"
  let ?v' = "handleGenerateScript WithKeys laterBlocksDown readyWorld"
  have g: "gate WithKeys (ui readyWorld) = None"
    by (rule ready_gate)
  have emp: "outline (ui readyWorld) = []"
    by (simp add: sample_defs)
  have ans: "outlineAnswer okService (history readyWorld @ [outlineRequest WithKeys (ui readyWorld)])
       = Inr sampleOutline"
    by (simp add: okService_def)
  have ans': "outlineAnswer laterBlocksDown
       (history readyWorld @ [outlineRequest WithKeys (ui readyWorld)]) = Inr sampleOutline"
    by (simp add: laterBlocksDown_def okService_def)
  have e: "error (ui ?w') = None"
    by (simp add: model_defs sample_defs upt_rec)
  have e': "error (ui ?v') = Some (errorMessage Script (js ''503''))"
    by (simp add: laterBlocksDown_def model_defs sample_defs upt_rec)
  have b': "length (scriptBlocks (ui ?v')) = 1"
    by (simp add: laterBlocksDown_def model_defs sample_defs upt_rec)
  note T = script_generation_from_empty_outline [OF g emp, of okService]
  note T' = script_generation_from_empty_outline [OF g emp, of laterBlocksDown]
  from T ans e have n: "length (scriptBlocks (ui ?w')) = length (outline (ui ?w'))"
    and i: "map sb_index (scriptBlocks (ui ?w')) = map (\<lambda>i. int i + 1) [0..<length sampleOutline]"
    by blast+
  from T ans have "length (tl (newCalls readyWorld ?w')) =
      (if error (ui ?w') = None then length (scriptBlocks (ui ?w'))
       else length (scriptBlocks (ui ?w')) + 1)"
    by blast
  with e n have l: "length (tl (newCalls readyWorld ?w')) = length (outline (ui ?w'))"
    by simp
  from T ans have "outline (ui ?w') = withIndex sampleOutline"
    by blast
  then have o: "length (outline (ui ?w')) = 2"
    by (simp add: sampleOutline_def)
  from T' ans' have "outline (ui ?v') = withIndex sampleOutline"
    by blast
  then have o': "length (outline (ui ?v')) = 2"
    by (simp add: sampleOutline_def)
  from T' ans' have "length (tl (newCalls readyWorld ?v')) =
      (if error (ui ?v') = None then length (scriptBlocks (ui ?v'))
       else length (scriptBlocks (ui ?v')) + 1)"
    by blast
  with e' b' have l': "length (tl (newCalls readyWorld ?v')) = 2"
    by simp
  have i2: "map sb_index (scriptBlocks (ui ?w')) = [1, 2]"
    using i by (simp add: sampleOutline_def upt_rec)
  have l2: "length (tl (newCalls readyWorld ?w')) = 2"
    using l o by simp
  from g emp ans e i2 l2 ans' e' o' b' l' show ?thesis
    by (intro conjI)
qed

text \<open>
  C3. A prompt generation makes both calls, the video prompts first, in one and the same
  state, in which neither result list has been written, and whatever the first call
  answers. When both calls resolve, both lists are written. When either rejects, both
  lists keep the values they had, and the error message is the one message built from
  the reason of a call that rejected. The busy flag is cleared either way.
\<close>

theorem prompts_are_joined:
  assumes g: "gate rv (ui w) = None"
  shows "newCalls w (handleGeneratePrompts rv svc w) =
           [(videoPromptsRequest rv (ui w), entered Prompts (ui w)),
            (thumbIdeasRequest rv (ui w), entered Prompts (ui w))]
       \<and> videoPrompts (entered Prompts (ui w)) = videoPrompts (ui w)
       \<and> thumbTextIdeas (entered Prompts (ui w)) = thumbTextIdeas (ui w)
       \<and> (\<forall>prompts thumbs.
             videoPromptsAnswer svc (history w @ [videoPromptsRequest rv (ui w)]) = Inr prompts \<and>
             thumbIdeasAnswer svc
               (history w @ [videoPromptsRequest rv (ui w), thumbIdeasRequest rv (ui w)]) = Inr thumbs \<longrightarrow>
             videoPrompts (ui (handleGeneratePrompts rv svc w)) = prompts
           \<and> thumbTextIdeas (ui (handleGeneratePrompts rv svc w)) = thumbs
           \<and> error (ui (handleGeneratePrompts rv svc w)) = None)
       \<and> (\<forall>e.
             videoPromptsAnswer svc (history w @ [videoPromptsRequest rv (ui w)]) = Inl e \<or>
             thumbIdeasAnswer svc
               (history w @ [videoPromptsRequest rv (ui w), thumbIdeasRequest rv (ui w)]) = Inl e \<longrightarrow>
             videoPrompts (ui (handleGeneratePrompts rv svc w)) = videoPrompts (ui w)
           \<and> thumbTextIdeas (ui (handleGeneratePrompts rv svc w)) = thumbTextIdeas (ui w)
           \<and> (\<exists>e'. (videoPromptsAnswer svc (history w @ [videoPromptsRequest rv (ui w)]) = Inl e' \<or>
                     thumbIdeasAnswer svc
                       (history w @ [videoPromptsRequest rv (ui w), thumbIdeasRequest rv (ui w)])
                       = Inl e')
                  \<and> error (ui (handleGeneratePrompts rv svc w)) = Some (errorMessage Prompts e')))
       \<and> loading (ui (handleGeneratePrompts rv svc w)) = withKey Prompts False (loading (ui w))"
proof -
  let ?r1 = "videoPromptsAnswer svc (history w @ [videoPromptsRequest rv (ui w)])"
  let ?r2 = "thumbIdeasAnswer svc
               (history w @ [videoPromptsRequest rv (ui w), thumbIdeasRequest rv (ui w)])"
  let ?b = "thumbsSettleFirst svc
               (history w @ [videoPromptsRequest rv (ui w), thumbIdeasRequest rv (ui w)])"
  note c = prompts_run(1) [OF g, of svc]
  note u = prompts_run(2) [OF g, of svc]
  have 1: "newCalls w (handleGeneratePrompts rv svc w) =
           [(videoPromptsRequest rv (ui w), entered Prompts (ui w)),
            (thumbIdeasRequest rv (ui w), entered Prompts (ui w))]"
    using c by (rule newCalls_append)
  show ?thesis
  proof (cases ?r1)
    case l1: (Inl e1)
    show ?thesis
    proof (cases ?r2)
      case l2: (Inl e2)
      show ?thesis
        using 1 u l1 l2 by (cases ?b) (auto simp: entered_def)
    next
      case r2: (Inr t2)
      show ?thesis
        using 1 u l1 r2 by (auto simp: entered_def)
    qed
  next
    case r1: (Inr p1)
    show ?thesis
    proof (cases ?r2)
      case l2: (Inl e2)
      show ?thesis
        using 1 u r1 l2 by (auto simp: entered_def)
    next
      case r2: (Inr t2)
      show ?thesis
        using 1 u r1 r2 by (auto simp: entered_def)
    qed
  qed
qed

theorem prompts_are_joined_witness:
  "gate WithKeys (ui promptedWorld) = None
   \<and> thumbIdeasAnswer thumbsDown
        (history promptedWorld @
         [videoPromptsRequest WithKeys (ui promptedWorld),
          thumbIdeasRequest WithKeys (ui promptedWorld)]) = Inl (js ''503'')
   \<and> videoPrompts (ui promptedWorld) = [js ''p1'', js ''p2'']
   \<and> videoPrompts (ui (handleGeneratePrompts WithKeys thumbsDown promptedWorld)) =
       [js ''p1'', js ''p2'']
   \<and> thumbTextIdeas (ui (handleGeneratePrompts WithKeys thumbsDown promptedWorld)) = [js ''t1'']
   \<and> length (newCalls promptedWorld (handleGeneratePrompts WithKeys thumbsDown promptedWorld)) = 2"
proof -
  have g: "gate WithKeys (ui promptedWorld) = None"
    by (simp add: promptedWorld_def model_defs sample_defs)
  have a: "thumbIdeasAnswer thumbsDown
        (history promptedWorld @
         [videoPromptsRequest WithKeys (ui promptedWorld),
          thumbIdeasRequest WithKeys (ui promptedWorld)]) = Inl (js ''503'')"
    by (simp add: thumbsDown_def)
  have p: "videoPrompts (ui promptedWorld) = [js ''p1'', js ''p2'']"
    "thumbTextIdeas (ui promptedWorld) = [js ''t1'']"
    by (simp_all add: promptedWorld_def model_defs sample_defs)
  note T = prompts_are_joined [OF g, of thumbsDown]
  from T a have "videoPrompts (ui (handleGeneratePrompts WithKeys thumbsDown promptedWorld)) =
      videoPrompts (ui promptedWorld)
    \<and> thumbTextIdeas (ui (handleGeneratePrompts WithKeys thumbsDown promptedWorld)) =
      thumbTextIdeas (ui promptedWorld)"
    by blast
  moreover from T have "length (newCalls promptedWorld
      (handleGeneratePrompts WithKeys thumbsDown promptedWorld)) = 2"
    by simp
  ultimately show ?thesis
    using g a p by simp
qed

text \<open>
  C4, as amended. A failure inside the body of a handler clears the busy flag of that
  handler and of no other, and leaves the SEO result and both prompt lists as they were.
  A failed outline, SEO or prompt generation leaves the outline and the script blocks as
  they were too. A failed script generation leaves a stored outline as it was, and it
  empties the list of script blocks at its start; what it leaves there are the blocks it
  completed. If its outline request was rejected (no outline is stored then), that was
  its only request, it leaves no block, and the error is the message of that rejection.
  Otherwise it asked for the blocks of the first items of the outline in their order, all
  but the last request were answered, and the last was rejected: block \<open>i\<close> is the block
  of item \<open>i\<close> with the text returned by the request for it, there are fewer blocks than
  items, one request more than blocks (the outline request apart), and the error is the
  message of the rejection.
\<close>

theorem failure_is_local:
  assumes g: "gate rv (ui w) = None"
    and f: "error (ui (handler k rv svc w)) \<noteq> None"
  shows "loading (ui (handler k rv svc w)) = withKey k False (loading (ui w))
       \<and> \<not> busy (loading (ui (handler k rv svc w))) k
       \<and> seo (ui (handler k rv svc w)) = seo (ui w)
       \<and> videoPrompts (ui (handler k rv svc w)) = videoPrompts (ui w)
       \<and> thumbTextIdeas (ui (handler k rv svc w)) = thumbTextIdeas (ui w)
       \<and> (k \<noteq> Script \<longrightarrow>
            outline (ui (handler k rv svc w)) = outline (ui w)
          \<and> scriptBlocks (ui (handler k rv svc w)) = scriptBlocks (ui w))
       \<and> (k = Script \<longrightarrow>
            (outline (ui w) \<noteq> [] \<longrightarrow> outline (ui (handler k rv svc w)) = outline (ui w))
          \<and> (outline (ui (handler k rv svc w)) = [] \<longrightarrow>
                scriptBlocks (ui (handler k rv svc w)) = []
              \<and> map fst (newCalls w (handler k rv svc w)) = [outlineRequest rv (ui w)]
              \<and> (\<exists>e. outlineAnswer svc (history w @ [outlineRequest rv (ui w)]) = Inl e
                    \<and> error (ui (handler k rv svc w)) = Some (errorMessage Script e)))
          \<and> (outline (ui (handler k rv svc w)) \<noteq> [] \<longrightarrow>
                length (scriptBlocks (ui (handler k rv svc w)))
                  < length (outline (ui (handler k rv svc w)))
              \<and> length (newCalls w (handler k rv svc w)) =
                  (if outline (ui w) = [] then 1 else 0)
                  + length (scriptBlocks (ui (handler k rv svc w))) + 1
              \<and> (\<forall>i<length (scriptBlocks (ui (handler k rv svc w))). \<exists>tx.
                    scriptBlockAnswer svc
                      (history w @
                       map fst (take ((if outline (ui w) = [] then 1 else 0) + i + 1)
                                  (newCalls w (handler k rv svc w)))) = Inr tx
                  \<and> scriptBlocks (ui (handler k rv svc w)) ! i =
                      newBlock (outline (ui (handler k rv svc w)) ! i) tx)
              \<and> (\<forall>i\<le>length (scriptBlocks (ui (handler k rv svc w))).
                    fst (newCalls w (handler k rv svc w)
                           ! ((if outline (ui w) = [] then 1 else 0) + i)) =
                      GenerateScriptBlock (outline (ui (handler k rv svc w)) ! i)
                        (bookTitle (ui w))
                        (charsPerBlock (totalCharsTarget (ui w))
                           (length (outline (ui (handler k rv svc w)))))
                        (overrideOf rv (ui w)))
              \<and> (\<exists>e. scriptBlockAnswer svc
                      (history w @ map fst (newCalls w (handler k rv svc w))) = Inl e
                    \<and> error (ui (handler k rv svc w)) = Some (errorMessage Script e))))"
proof (cases k)
  case Outline
  show ?thesis
    using f outline_run(2) [OF g, of svc] unfolding Outline
    by (auto split: sum.splits)
next
  case Seo
  show ?thesis
    using f seo_run(2) [OF g, of svc] unfolding Seo
    by (auto split: sum.splits)
next
  case Prompts
  show ?thesis
    using f prompts_run(2) [OF g, of svc] unfolding Prompts
    by (auto split: sum.splits prod.splits)
next
  case Script
  let ?w' = "handleGenerateScript rv svc w"
  let ?p = "if outline (ui w) = [] then 1 else 0 :: nat"
  let ?partial = "length (scriptBlocks (ui ?w')) < length (outline (ui ?w'))
              \<and> length (newCalls w ?w') = ?p + length (scriptBlocks (ui ?w')) + 1
              \<and> (\<forall>i<length (scriptBlocks (ui ?w')). \<exists>tx.
                    scriptBlockAnswer svc
                      (history w @ map fst (take (?p + i + 1) (newCalls w ?w'))) = Inr tx
                  \<and> scriptBlocks (ui ?w') ! i = newBlock (outline (ui ?w') ! i) tx)
              \<and> (\<forall>i\<le>length (scriptBlocks (ui ?w')).
                    fst (newCalls w ?w' ! (?p + i)) =
                      GenerateScriptBlock (outline (ui ?w') ! i) (bookTitle (ui w))
                        (charsPerBlock (totalCharsTarget (ui w)) (length (outline (ui ?w'))))
                        (overrideOf rv (ui w)))
              \<and> (\<exists>e. scriptBlockAnswer svc (history w @ map fst (newCalls w ?w')) = Inl e
                    \<and> error (ui ?w') = Some (errorMessage Script e))"
  let ?refused = "scriptBlocks (ui ?w') = []
              \<and> map fst (newCalls w ?w') = [outlineRequest rv (ui w)]
              \<and> (\<exists>e. outlineAnswer svc (history w @ [outlineRequest rv (ui w)]) = Inl e
                    \<and> error (ui ?w') = Some (errorMessage Script e))"
  from f have f': "error (ui ?w') \<noteq> None"
    by (simp add: Script)
  have "loading (ui ?w') = withKey Script False (loading (ui w))
       \<and> seo (ui ?w') = seo (ui w)
       \<and> videoPrompts (ui ?w') = videoPrompts (ui w)
       \<and> thumbTextIdeas (ui ?w') = thumbTextIdeas (ui w)
       \<and> (outline (ui w) \<noteq> [] \<longrightarrow> outline (ui ?w') = outline (ui w))
       \<and> (outline (ui ?w') = [] \<longrightarrow> ?refused)
       \<and> (outline (ui ?w') \<noteq> [] \<longrightarrow> ?partial)"
    using g
  proof (cases rule: script_cases [where svc = svc])
    case (stored txts)
    let ?s = "(entered Script (ui w))\<lparr>scriptBlocks := []\<rparr>"
    from scriptRun_failure [OF stored(2) f']
    have u: "ui ?w' = ?s
         \<lparr>scriptBlocks := map2 newBlock (outline (ui w)) txts,
          loading := withKey Script False (loading ?s),
          error := error (ui ?w')\<rparr>"
      by (rule conjunct1)
    have o: "outline (ui ?w') = outline (ui w)"
      and r: "loading (ui ?w') = withKey Script False (loading (ui w))"
        "seo (ui ?w') = seo (ui w)" "videoPrompts (ui ?w') = videoPrompts (ui w)"
        "thumbTextIdeas (ui ?w') = thumbTextIdeas (ui w)"
      by (subst u, simp add: entered_def)+
    have s: "bookTitle ?s = bookTitle (ui w)" "totalCharsTarget ?s = totalCharsTarget (ui w)"
      "overrideOf rv ?s = overrideOf rv (ui w)" "length ([] :: (request \<times> AppState) list) = 0"
      by (simp_all add: entered_def totalCharsTarget_def)
    have p: "?p = 0"
      using stored(1) by simp
    have "?partial"
      unfolding o p using scriptRun_partial [OF stored(2) f', unfolded s] by simp
    with o r stored(1) show ?thesis by simp
  next
    case (failed e)
    have "?refused"
      using failed(2) by (simp add: failed(3) failed(4))
    then show ?thesis
      using failed(1) by (simp add: failed(4))
  next
    case (generated generated txts)
    let ?s = "(entered Script (ui w))\<lparr>scriptBlocks := [], outline := withIndex generated\<rparr>"
    let ?pre = "[(outlineRequest rv (ui w), (entered Script (ui w))\<lparr>scriptBlocks := []\<rparr>)]"
    from scriptRun_failure [OF generated(3) f']
    have u: "ui ?w' = ?s
         \<lparr>scriptBlocks := map2 newBlock (withIndex generated) txts,
          loading := withKey Script False (loading ?s),
          error := error (ui ?w')\<rparr>"
      and l: "length txts < length (withIndex generated)"
      by (rule conjunct1, rule conjunct2)
    have o: "outline (ui ?w') = withIndex generated"
      and r: "loading (ui ?w') = withKey Script False (loading (ui w))"
        "seo (ui ?w') = seo (ui w)" "videoPrompts (ui ?w') = videoPrompts (ui w)"
        "thumbTextIdeas (ui ?w') = thumbTextIdeas (ui w)"
      by (subst u, simp add: entered_def)+
    have s: "bookTitle ?s = bookTitle (ui w)" "totalCharsTarget ?s = totalCharsTarget (ui w)"
      "overrideOf rv ?s = overrideOf rv (ui w)" "length ?pre = 1"
      by (simp_all add: entered_def totalCharsTarget_def)
    have p: "?p = 1"
      using generated(1) by simp
    have ne: "withIndex generated \<noteq> []"
    proof
      assume e: "withIndex generated = []"
      from l show False unfolding e by simp
    qed
    have "?partial"
      unfolding o p by (rule scriptRun_partial [OF generated(3) f', unfolded s])
    with o r generated(1) ne show ?thesis by simp
  qed
  then show ?thesis
    unfolding Script by simp
qed

theorem failed_script_generation_empties_blocks:
  "gate WithKeys (ui scriptedWorld) = None
   \<and> error (ui (handleGenerateScript WithKeys blocksDown scriptedWorld)) \<noteq> None
   \<and> length (scriptBlocks (ui scriptedWorld)) = 2
   \<and> scriptBlocks (ui (handleGenerateScript WithKeys blocksDown scriptedWorld)) = []
   \<and> scriptBlocks (ui (handleGenerateScript WithKeys blocksDown scriptedWorld))
       \<noteq> scriptBlocks (ui scriptedWorld)"
  by (simp add: scriptedWorld_def blocksDown_def model_defs sample_defs upt_rec)

theorem failure_is_local_witness:
  "gate WithKeys (ui scriptedWorld) = None
   \<and> error (ui (handler Script WithKeys laterBlocksDown scriptedWorld))
       = Some (errorMessage Script (js ''503''))
   \<and> outline (ui scriptedWorld) \<noteq> []
   \<and> outline (ui (handler Script WithKeys laterBlocksDown scriptedWorld))
       = outline (ui scriptedWorld)
   \<and> length (outline (ui scriptedWorld)) = 2
   \<and> scriptBlocks (ui (handler Script WithKeys laterBlocksDown scriptedWorld))
       = [newBlock (outline (ui scriptedWorld) ! 0) (js ''Once'')]
   \<and> length (newCalls scriptedWorld (handler Script WithKeys laterBlocksDown scriptedWorld)) = 2
   \<and> \<not> busy (loading (ui (handler Script WithKeys laterBlocksDown scriptedWorld))) Script
   \<and> seo (ui (handler Script WithKeys laterBlocksDown scriptedWorld)) = seo (ui scriptedWorld)"
proof -
  let ?w' = "handler Script WithKeys laterBlocksDown scriptedWorld"
  have g: "gate WithKeys (ui scriptedWorld) = None"
    by (simp add: scriptedWorld_def model_defs sample_defs upt_rec)
  have e: "error (ui ?w') = Some (errorMessage Script (js ''503''))"
    by (simp add: scriptedWorld_def laterBlocksDown_def model_defs sample_defs upt_rec)
  then have f: "error (ui ?w') \<noteq> None"
    by simp
  have o: "outline (ui scriptedWorld) \<noteq> []"
    and l: "length (outline (ui scriptedWorld)) = 2"
    by (simp_all add: scriptedWorld_def model_defs sample_defs upt_rec)
  have b: "scriptBlocks (ui ?w') = [newBlock (outline (ui scriptedWorld) ! 0) (js ''Once'')]"
    by (simp add: scriptedWorld_def laterBlocksDown_def model_defs sample_defs upt_rec)
  note T = failure_is_local [OF g f]
  from T o have o': "outline (ui ?w') = outline (ui scriptedWorld)"
    by blast
  from T have r: "\<not> busy (loading (ui ?w')) Script" "seo (ui ?w') = seo (ui scriptedWorld)"
    by blast+
  from o o' have "outline (ui ?w') \<noteq> []"
    by simp
  with T have "length (newCalls scriptedWorld ?w') =
      (if outline (ui scriptedWorld) = [] then 1 else 0) + length (scriptBlocks (ui ?w')) + 1"
    by blast
  with o b have n: "length (newCalls scriptedWorld ?w') = 2"
    by simp
  from g e o o' l b n r show ?thesis
    by (intro conjI)
qed

text \<open>
  C1, as amended. The gate fails exactly when the title is empty or, in the revision with
  the key fields, the selected model starts with \<open>gpt\<close> and the OpenAI key is empty; the
  Gemini key is not looked at. For each of the four handlers: when the gate fails the
  handler sets the message of the gate as the error, changes nothing else and makes no
  call; when it passes, the handler makes a call, and every call it makes is made in a
  state whose error is clear and whose busy flag of this handler is set.
\<close>

theorem gate_blocks_or_enters:
  "(gate rv (ui w) \<noteq> None \<longleftrightarrow>
      bookTitle (ui w) = [] \<or>
      (rv = WithKeys \<and> startsWith (selectedModel (ui w)) (js ''gpt'') \<and> apiKeyOpenAI (ui w) = []))
   \<and> (gate rv (ui w) \<noteq> None \<longrightarrow>
        ui (handler k rv svc w) = (ui w)\<lparr>error := gate rv (ui w)\<rparr>
      \<and> calls (handler k rv svc w) = calls w
      \<and> newCalls w (handler k rv svc w) = [])
   \<and> (gate rv (ui w) = None \<longrightarrow>
        newCalls w (handler k rv svc w) \<noteq> []
      \<and> (\<forall>(rq, s)\<in>set (newCalls w (handler k rv svc w)).
            error s = None \<and> busy (loading s) k))"
proof (intro conjI impI)
  show "gate rv (ui w) \<noteq> None \<longleftrightarrow>
      bookTitle (ui w) = [] \<or>
      (rv = WithKeys \<and> startsWith (selectedModel (ui w)) (js ''gpt'') \<and> apiKeyOpenAI (ui w) = [])"
    by (simp add: gate_def)
next
  assume "gate rv (ui w) \<noteq> None"
  then obtain m where m: "gate rv (ui w) = Some m" by auto
  note h = handler_blocked [OF m, of k svc]
  show "ui (handler k rv svc w) = (ui w)\<lparr>error := gate rv (ui w)\<rparr>"
    and "calls (handler k rv svc w) = calls w"
    and "newCalls w (handler k rv svc w) = []"
    unfolding h m by (simp_all add: newCalls_def)
next
  assume g: "gate rv (ui w) = None"
  note h = handler_snapshots [OF g, of k svc]
  from h show "newCalls w (handler k rv svc w) \<noteq> []" ..
  from h have "\<forall>(rq, s)\<in>set (newCalls w (handler k rv svc w)).
      error s = None \<and> loading s = withKey k True (loading (ui w))" ..
  then show "\<forall>(rq, s)\<in>set (newCalls w (handler k rv svc w)). error s = None \<and> busy (loading s) k"
    by (auto split: prod.splits)
qed

theorem gemini_key_is_not_checked:
  "credentialMissing (ui readyWorld)
   \<and> selectedModel (ui readyWorld) = js ''gemini-3-pro-preview''
   \<and> apiKeyGemini (ui readyWorld) = []
   \<and> error (ui (handleGenerateSEO WithKeys okService readyWorld)) = None
   \<and> length (newCalls readyWorld (handleGenerateSEO WithKeys okService readyWorld)) = 1"
  by (simp add: credentialMissing_def providerOf_def newCalls_def model_defs sample_defs)

theorem gate_blocks_or_enters_witness:
  "gate WithKeys (ui initialWorld) = Some msgNoTitle
   \<and> error (ui (handler Seo WithKeys okService initialWorld)) = Some msgNoTitle
   \<and> calls (handler Seo WithKeys okService initialWorld) = []
   \<and> gate WithKeys (ui gptWorld) = Some msgNoOpenAIKey
   \<and> error (ui (handler Seo WithKeys okService gptWorld)) = Some msgNoOpenAIKey
   \<and> calls (handler Seo WithKeys okService gptWorld) = []
   \<and> gate WithKeys (ui readyWorld) = None
   \<and> newCalls readyWorld (handler Seo WithKeys okService readyWorld) \<noteq> []
   \<and> busy (loading (snd (hd (newCalls readyWorld (handler Seo WithKeys okService readyWorld))))) Seo"
proof -
  have g0: "gate WithKeys (ui initialWorld) = Some msgNoTitle"
    by (simp add: gate_def initialWorld_def initialState_def)
  have g1: "gate WithKeys (ui gptWorld) = Some msgNoOpenAIKey"
    by (simp add: gate_def gptWorld_def initialState_def startsWith_def js_def)
  have g2: "gate WithKeys (ui readyWorld) = None"
    by (rule ready_gate)
  note T0 = gate_blocks_or_enters [of WithKeys initialWorld Seo okService]
  note T1 = gate_blocks_or_enters [of WithKeys gptWorld Seo okService]
  note T2 = gate_blocks_or_enters [of WithKeys readyWorld Seo okService]
  from T0 g0 have a: "ui (handler Seo WithKeys okService initialWorld) =
      (ui initialWorld)\<lparr>error := Some msgNoTitle\<rparr>"
    "calls (handler Seo WithKeys okService initialWorld) = calls initialWorld"
    by simp_all
  from T1 g1 have b: "ui (handler Seo WithKeys okService gptWorld) =
      (ui gptWorld)\<lparr>error := Some msgNoOpenAIKey\<rparr>"
    "calls (handler Seo WithKeys okService gptWorld) = calls gptWorld"
    by simp_all
  from T2 g2 have c: "newCalls readyWorld (handler Seo WithKeys okService readyWorld) \<noteq> []"
    and d: "\<forall>(rq, s)\<in>set (newCalls readyWorld (handler Seo WithKeys okService readyWorld)).
            error s = None \<and> busy (loading s) Seo"
    by simp_all
  obtain rq s where hs: "hd (newCalls readyWorld (handler Seo WithKeys okService readyWorld)) = (rq, s)"
    by (cases "hd (newCalls readyWorld (handler Seo WithKeys okService readyWorld))")
  from c have "hd (newCalls readyWorld (handler Seo WithKeys okService readyWorld))
      \<in> set (newCalls readyWorld (handler Seo WithKeys okService readyWorld))"
    by (rule hd_in_set)
  then have "(rq, s) \<in> set (newCalls readyWorld (handler Seo WithKeys okService readyWorld))"
    unfolding hs .
  with d have "busy (loading s) Seo"
    by blast
  then have e: "busy (loading (snd (hd (newCalls readyWorld
      (handler Seo WithKeys okService readyWorld))))) Seo"
    unfolding hs by simp
  from a b c e g0 g1 g2 show ?thesis
    by (simp add: initialWorld_def gptWorld_def)
qed

text \<open>
  C9. The slug is made of the words of the lower-cased, decomposed title without its
  diacritics, joined by single hyphens. Without its diacritics: the string is read as
  code points (a lead surrogate followed by a trail surrogate is one code point, any
  other code unit is one of its own), and every code point that has the property
  \<open>Diacritic\<close> is left out, and nothing else; where there is no lead surrogate these are
  the code units with the property. A word is a maximal run of \<open>a-z\<close> and \<open>0-9\<close>:
  alphanumeric is read as the class \<open>[a-z0-9]\<close> of the code, so that a letter outside
  it that lower-casing and decomposition leave alone (such as U+0111) separates words
  like any other character. The empty title is replaced by \<open>ndgroup\<close> first. So the
  slug holds only \<open>a-z\<close>, \<open>0-9\<close> and hyphens, no two hyphens in a row, and neither
  begins nor ends with a hyphen. On an engine whose Unicode tables say what the standard
  says about the two examples, the title of the example gives \<open>nha-gia-kim\<close> and the
  empty title gives \<open>ndgroup\<close>.
\<close>

theorem slugify_is_hyphenated_words:
  "slugify U s =
     join [hyphen] (alnumWords (withoutDiacritics (Diacritic U)
       (normalizeNFD U (toLowerCase U (if s = [] then js ''ndgroup'' else s)))))
   \<and> concat (map fst (codePoints t)) = t
   \<and> ((\<forall>c\<in>set t. \<not> isLead c) \<longrightarrow>
        withoutDiacritics D t = filter (\<lambda>c. \<not> D (unat c)) t)
   \<and> (\<forall>w\<in>set (alnumWords t). w \<noteq> [] \<and> (\<forall>c\<in>set w. is_az09 c))
   \<and> concat (alnumWords t) = filter is_az09 t
   \<and> (\<forall>c\<in>set (slugify U s). is_az09 c \<or> c = hyphen)
   \<and> noDoubleHyphen (slugify U s)
   \<and> (slugify U s \<noteq> [] \<longrightarrow> hd (slugify U s) \<noteq> hyphen \<and> last (slugify U s) \<noteq> hyphen)
   \<and> (unicodeOfExamples U \<longrightarrow>
        slugify U nhaGiaKim = js ''nha-gia-kim'' \<and> slugify U [] = js ''ndgroup'')"
proof -
  let ?t = "withoutDiacritics (Diacritic U)
       (normalizeNFD U (toLowerCase U (if s = [] then js ''ndgroup'' else s)))"
  have w: "\<forall>w\<in>set (alnumWords ?t). w \<noteq> [] \<and> (\<forall>c\<in>set w. is_az09 c)"
    using alnumWords_words by blast
  have 1: "slugify U s = join [hyphen] (alnumWords ?t)"
    unfolding stripDiacritic_codePoints [symmetric] by (rule slugify_words)
  have 2: "\<forall>w\<in>set (alnumWords t). w \<noteq> [] \<and> (\<forall>c\<in>set w. is_az09 c)"
    using alnumWords_words by blast
  have 3: "(\<forall>c\<in>set t. \<not> isLead c) \<longrightarrow>
        withoutDiacritics D t = filter (\<lambda>c. \<not> D (unat c)) t"
    using withoutDiacritics_units by blast
  have 4: "\<forall>c\<in>set (slugify U s). is_az09 c \<or> c = hyphen"
    unfolding 1 using w by (intro set_join_words) blast
  have 5: "noDoubleHyphen (slugify U s)"
    unfolding 1 using w by (rule noDoubleHyphen_join)
  have 6: "slugify U s \<noteq> [] \<longrightarrow> hd (slugify U s) \<noteq> hyphen \<and> last (slugify U s) \<noteq> hyphen"
  proof
    assume "slugify U s \<noteq> []"
    then have "alnumWords ?t \<noteq> []"
      unfolding 1 by auto
    from join_words_ends [OF this w]
    have "is_az09 (hd (slugify U s))" "is_az09 (last (slugify U s))"
      unfolding 1 by simp_all
    then show "hd (slugify U s) \<noteq> hyphen \<and> last (slugify U s) \<noteq> hyphen"
      by auto
  qed
  have 7: "unicodeOfExamples U \<longrightarrow>
        slugify U nhaGiaKim = js ''nha-gia-kim'' \<and> slugify U [] = js ''ndgroup''"
    using slugify_examples by blast
  from 1 concat_codePoints 3 2 concat_alnumWords 4 5 6 7 show ?thesis
    by (intro conjI)
qed

theorem slugify_is_hyphenated_words_witness:
  "unicodeOfExamples sampleUnicode
   \<and> slugify sampleUnicode nhaGiaKim = js ''nha-gia-kim''
   \<and> slugify sampleUnicode [] = js ''ndgroup''
   \<and> slugify sampleUnicode [0x4E, 0x68, 0xE0, 0x6E] = js ''nhan''
   \<and> slugify sampleUnicode [0x61, 0x111, 0x61] = js ''a-a''
   \<and> withoutDiacritics (Diacritic sampleUnicode) [0x61, 0x300, 0xD83D, 0xDE00, 0x62]
       = [0x61, 0xD83D, 0xDE00, 0x62]
   \<and> slugify sampleUnicode (js ''--A  b!'') = js ''a-b''
   \<and> hd (slugify sampleUnicode (js ''--A  b!'')) \<noteq> hyphen
   \<and> last (slugify sampleUnicode (js ''--A  b!'')) \<noteq> hyphen"
proof -
  note T = slugify_is_hyphenated_words [of sampleUnicode "js ''--A  b!''" "[]"]
  have e: "slugify sampleUnicode (js ''--A  b!'') = js ''a-b''"
    by (simp add: slugify_def sampleUnicode_def js_def isLead_def is_az09_def trimHyphen_def
        hyphen_def)
  have n: "slugify sampleUnicode [0x4E, 0x68, 0xE0, 0x6E] = js ''nhan''"
    by (simp add: slugify_def sampleUnicode_def js_def isLead_def is_az09_def trimHyphen_def
        hyphen_def)
  have d: "slugify sampleUnicode [0x61, 0x111, 0x61] = js ''a-a''"
    by (simp add: slugify_def sampleUnicode_def js_def isLead_def is_az09_def trimHyphen_def
        hyphen_def)
  have p: "withoutDiacritics (Diacritic sampleUnicode) [0x61, 0x300, 0xD83D, 0xDE00, 0x62]
       = [0x61, 0xD83D, 0xDE00, 0x62]"
    by (simp add: withoutDiacritics_def sampleUnicode_def isLead_def isTrail_def codePoint_def)
  from e have "slugify sampleUnicode (js ''--A  b!'') \<noteq> []"
    by (simp add: js_def)
  with T have h: "hd (slugify sampleUnicode (js ''--A  b!'')) \<noteq> hyphen"
    "last (slugify sampleUnicode (js ''--A  b!'')) \<noteq> hyphen"
    by blast+
  from T sampleUnicode_ok
  have x: "slugify sampleUnicode nhaGiaKim = js ''nha-gia-kim''"
    "slugify sampleUnicode [] = js ''ndgroup''"
    by blast+
  from sampleUnicode_ok x n d p e h show ?thesis
    by (intro conjI)
qed

text \<open>
  C8. The text of the download is the byte-order mark U+FEFF followed by the rows, with
  CR LF between rows; a row is its fields, each in double quotes with its own double
  quotes doubled, with commas between fields. The bytes of the download begin with the
  UTF-8 form EF BB BF of the mark, followed by the encoding of the rest. For the rows of
  the example the second row is \<open>"c,d","e""f"\<close>.
\<close>

theorem csv_export_format:
  "blobText (downloadCSV name rows) =
     0xFEFF # separated [0x0D, 0x0A] (map (\<lambda>row. separated (js '','') (map quoted row)) rows)
   \<and> filename (downloadCSV name rows) = name
   \<and> blobBytes (blobText (downloadCSV name rows)) =
       [0xEF, 0xBB, 0xBF] @ blobBytes (tl (blobText (downloadCSV name rows)))
   \<and> processRow [js ''c,d'', js ''e'' @ [dquote] @ js ''f''] =
       [dquote] @ js ''c,d'' @ [dquote] @ js '','' @
       [dquote] @ js ''e'' @ [dquote, dquote] @ js ''f'' @ [dquote]
   \<and> blobText (downloadCSV name [[js ''a'', js ''b''], [js ''c,d'', js ''e'' @ [dquote] @ js ''f'']]) =
       [0xFEFF] @ [dquote] @ js ''a'' @ [dquote] @ js '','' @ [dquote] @ js ''b'' @ [dquote] @
       [0x0D, 0x0A] @
       [dquote] @ js ''c,d'' @ [dquote] @ js '','' @
       [dquote] @ js ''e'' @ [dquote, dquote] @ js ''f'' @ [dquote]"
proof -
  have q: "quoted = (\<lambda>v. dquote # doubled v @ [dquote])"
    by (rule ext) (simp add: quoted_def)
  have r: "processRow = (\<lambda>row. separated (js '','') (map quoted row))"
    by (rule ext) (simp add: processRow_def doubled_eq join_separated q)
  have 1: "blobText (downloadCSV name rows) =
     0xFEFF # separated [0x0D, 0x0A] (map (\<lambda>row. separated (js '','') (map quoted row)) rows)"
    by (simp add: downloadCSV_def csvContent_def join_separated r)
  have 3: "blobBytes (blobText (downloadCSV name rows)) =
       [0xEF, 0xBB, 0xBF] @ blobBytes (tl (blobText (downloadCSV name rows)))"
    unfolding 1 by (simp add: blobBytes_def scalarValues_BOM utf8_BOM)
  have 4: "processRow [js ''c,d'', js ''e'' @ [dquote] @ js ''f''] =
       [dquote] @ js ''c,d'' @ [dquote] @ js '','' @
       [dquote] @ js ''e'' @ [dquote, dquote] @ js ''f'' @ [dquote]"
    by (simp add: processRow_def doubleQuotes_def js_def dquote_def)
  have 5: "blobText (downloadCSV name [[js ''a'', js ''b''], [js ''c,d'', js ''e'' @ [dquote] @ js ''f'']]) =
       [0xFEFF] @ [dquote] @ js ''a'' @ [dquote] @ js '','' @ [dquote] @ js ''b'' @ [dquote] @
       [0x0D, 0x0A] @
       [dquote] @ js ''c,d'' @ [dquote] @ js '','' @
       [dquote] @ js ''e'' @ [dquote, dquote] @ js ''f'' @ [dquote]"
    by (simp add: downloadCSV_def csvContent_def processRow_def doubleQuotes_def js_def dquote_def)
  from 1 3 4 5 show ?thesis
    by (simp add: downloadCSV_def)
qed

theorem csv_export_format_witness:
  "filename (downloadCSV (js ''kichban_dune.csv'') [[js ''STT''], [js ''1'']]) = js ''kichban_dune.csv''
   \<and> take 3 (blobBytes (blobText (downloadCSV (js ''kichban_dune.csv'') [[js ''STT''], [js ''1'']])))
       = [0xEF, 0xBB, 0xBF]
   \<and> blobText (downloadCSV (js ''kichban_dune.csv'') [[js ''STT''], [js ''1'']]) =
       [0xFEFF] @ [dquote] @ js ''STT'' @ [dquote] @ [0x0D, 0x0A] @ [dquote] @ js ''1'' @ [dquote]"
proof -
  let ?d = "downloadCSV (js ''kichban_dune.csv'') [[js ''STT''], [js ''1'']]"
  note T = csv_export_format [of "js ''kichban_dune.csv''" "[[js ''STT''], [js ''1'']]"]
  from T have 1: "blobText ?d =
      0xFEFF # separated [0x0D, 0x0A]
        (map (\<lambda>row. separated (js '','') (map quoted row)) [[js ''STT''], [js ''1'']])"
    by (rule conjunct1)
  from T have 2: "filename ?d = js ''kichban_dune.csv''"
    by (rule conjunct2 [THEN conjunct1])
  from T have 3: "blobBytes (blobText ?d) = [0xEF, 0xBB, 0xBF] @ blobBytes (tl (blobText ?d))"
    by (rule conjunct2 [THEN conjunct2, THEN conjunct1])
  have 4: "take 3 (blobBytes (blobText ?d)) = [0xEF, 0xBB, 0xBF]"
    unfolding 3 by simp
  have 5: "blobText ?d =
      [0xFEFF] @ [dquote] @ js ''STT'' @ [dquote] @ [0x0D, 0x0A] @ [dquote] @ js ''1'' @ [dquote]"
    unfolding 1 by (simp add: quoted_def js_def dquote_def)
  from 2 4 5 show ?thesis
    by (intro conjI)
qed

text \<open>
  C10. The default slug stands in for the empty title only: a title that is not empty is
  itself lower-cased, decomposed and cut down. When no code unit of its lower-cased,
  decomposed form is a letter \<open>a-z\<close> or a digit, its slug is the empty string, not the
  default, and the two exports are named \<open>kichban_.csv\<close> and \<open>prompts_.csv\<close>.
\<close>

theorem slug_of_symbols_is_empty:
  assumes "s \<noteq> []"
    and "\<forall>c\<in>set (normalizeNFD U (toLowerCase U s)). \<not> is_az09 c"
  shows "slugify U s =
           trimHyphen (replaceRuns (stripDiacritic (Diacritic U) (normalizeNFD U (toLowerCase U s))))
       \<and> slugify U s = []
       \<and> slugify U s \<noteq> js ''ndgroup''
       \<and> (bookTitle st = s \<and> scriptBlocks st \<noteq> [] \<longrightarrow>
            map_option filename (exportScriptCSV U st) = Some (js ''kichban_.csv''))
       \<and> (bookTitle st = s \<and> videoPrompts st \<noteq> [] \<longrightarrow>
            map_option filename (exportPromptCSV U st) = Some (js ''prompts_.csv''))"
proof -
  have 1: "slugify U s =
      trimHyphen (replaceRuns (stripDiacritic (Diacritic U) (normalizeNFD U (toLowerCase U s))))"
    using assms(1) by (simp add: slugify_def)
  have "\<forall>c\<in>set (stripDiacritic (Diacritic U) (normalizeNFD U (toLowerCase U s))). \<not> is_az09 c"
    using assms(2) set_stripDiacritic by blast
  then have 2: "slugify U s = []"
    unfolding 1 by (rule replaceRuns_no_alnum)
  have 3: "slugify U s \<noteq> js ''ndgroup''"
    unfolding 2 by (simp add: js_def)
  show ?thesis
    using 1 2 3 by (simp add: exportScriptCSV_def exportPromptCSV_def downloadCSV_def js_def)
qed

theorem slug_of_symbols_is_empty_witness:
  "js ''!!!'' \<noteq> []
   \<and> normalizeNFD sampleUnicode (toLowerCase sampleUnicode (js ''!!!'')) = js ''!!!''
   \<and> slugify sampleUnicode (js ''!!!'') = []
   \<and> map_option filename
        (exportScriptCSV sampleUnicode ((ui scriptedWorld)\<lparr>bookTitle := js ''!!!''\<rparr>)) =
      Some (js ''kichban_.csv'')"
proof -
  have a: "js ''!!!'' \<noteq> []"
    by (simp add: js_def)
  have n: "normalizeNFD sampleUnicode (toLowerCase sampleUnicode (js ''!!!'')) = js ''!!!''"
    by (simp add: sampleUnicode_def js_def)
  have b: "\<forall>c\<in>set (normalizeNFD sampleUnicode (toLowerCase sampleUnicode (js ''!!!''))). \<not> is_az09 c"
    unfolding n by (simp add: js_def)
  have c: "scriptBlocks ((ui scriptedWorld)\<lparr>bookTitle := js ''!!!''\<rparr>) \<noteq> []"
    by (simp add: scriptedWorld_def model_defs sample_defs upt_rec)
  have d: "bookTitle ((ui scriptedWorld)\<lparr>bookTitle := js ''!!!''\<rparr>) = js ''!!!''"
    by simp
  note T = slug_of_symbols_is_empty [OF a b, of "(ui scriptedWorld)\<lparr>bookTitle := js ''!!!''\<rparr>"]
  from T have e: "slugify sampleUnicode (js ''!!!'') = []"
    by blast
  from T c d have f: "map_option filename
        (exportScriptCSV sampleUnicode ((ui scriptedWorld)\<lparr>bookTitle := js ''!!!''\<rparr>)) =
      Some (js ''kichban_.csv'')"
    by blast
  from a n e f show ?thesis
    by (intro conjI)
qed

end
